theory Spec2Isabelle
  imports Main "HOL-Library.Sublist"
begin

section \<open>JavaScript values and strings\<close>

text \<open>
  The services pass around plain JavaScript values: what \<^verbatim>\<open>JSON.parse\<close> gives back for the
  reply of the language model, object literals, \<^verbatim>\<open>null\<close> and \<^verbatim>\<open>undefined\<close>. An object is the
  list of its own properties in insertion order (the keys are distinct). Numbers are the
  integers (time-outs and counts in milliseconds); \<^verbatim>\<open>NaN\<close>, fractions and integers that
  JavaScript prints with an exponent are outside the model. Strings are lists of
  characters; the case mapping and the white space of the model are those of ASCII.
\<close>

datatype jsval =
    JUndefined
  | JNull
  | JBool bool
  | JNum int
  | JStr string
  | JArr "jsval list"
  | JObj "(string \<times> jsval) list"

fun truthy :: "jsval \<Rightarrow> bool" where
  "truthy JUndefined = False"
| "truthy JNull = False"
| "truthy (JBool b) = b"
| "truthy (JNum n) = (n \<noteq> 0)"
| "truthy (JStr s) = (s \<noteq> [])"
| "truthy (JArr xs) = True"
| "truthy (JObj kvs) = True"

text \<open>\<^verbatim>\<open>a || b\<close>\<close>

definition js_or :: "jsval \<Rightarrow> jsval \<Rightarrow> jsval" where
  "js_or a b = (if truthy a then a else b)"

text \<open>\<^verbatim>\<open>typeof v === 'object'\<close>: true of objects, arrays and \<^verbatim>\<open>null\<close>.\<close>

fun typeof_object :: "jsval \<Rightarrow> bool" where
  "typeof_object JNull = True"
| "typeof_object (JArr xs) = True"
| "typeof_object (JObj kvs) = True"
| "typeof_object v = False"

text \<open>
  \<^verbatim>\<open>v.k\<close> for a receiver that is neither \<^verbatim>\<open>null\<close> nor \<^verbatim>\<open>undefined\<close> and a key that no
  prototype defines (all keys read by the services are of that kind): the own property,
  or \<^verbatim>\<open>undefined\<close>.
\<close>

fun get_prop :: "jsval \<Rightarrow> string \<Rightarrow> jsval" where
  "get_prop (JObj kvs) k = (case map_of kvs k of Some v \<Rightarrow> v | None \<Rightarrow> JUndefined)"
| "get_prop v k = JUndefined"

fun is_nullish :: "jsval \<Rightarrow> bool" where
  "is_nullish JUndefined = True"
| "is_nullish JNull = True"
| "is_nullish v = False"

fun is_string :: "jsval \<Rightarrow> bool" where
  "is_string (JStr s) = True"
| "is_string v = False"

fun digits :: "nat \<Rightarrow> string" where
  "digits n = (if n < 10 then [''0123456789'' ! n]
               else digits (n div 10) @ [''0123456789'' ! (n mod 10)])"

declare digits.simps [simp del]

fun join_comma :: "string list \<Rightarrow> string" where
  "join_comma [] = []"
| "join_comma [s] = s"
| "join_comma (s # t # ss) = s @ '','' @ join_comma (t # ss)"

text \<open>The string conversion of template literals and of string-method arguments.\<close>

fun ToString :: "jsval \<Rightarrow> string" where
  "ToString JUndefined = ''undefined''"
| "ToString JNull = ''null''"
| "ToString (JBool b) = (if b then ''true'' else ''false'')"
| "ToString (JNum n) = (if n < 0 then ''-'' @ digits (nat (- n)) else digits (nat n))"
| "ToString (JStr s) = s"
| "ToString (JArr xs) =
     join_comma (map (\<lambda>v. if is_nullish v then [] else ToString v) xs)"
| "ToString (JObj kvs) = ''[object Object]''"

definition to_lower_char :: "char \<Rightarrow> char" where
  "to_lower_char c =
     (case map_of (zip ''ABCDEFGHIJKLMNOPQRSTUVWXYZ'' ''abcdefghijklmnopqrstuvwxyz'') c of
        Some d \<Rightarrow> d
      | None \<Rightarrow> c)"

definition toLowerCase :: "string \<Rightarrow> string" where
  "toLowerCase s = map to_lower_char s"

text \<open>\<^verbatim>\<open>s.includes(t)\<close>: \<open>t\<close> occurs in \<open>s\<close> as a contiguous run of characters.\<close>

fun str_includes :: "string \<Rightarrow> string \<Rightarrow> bool" where
  "str_includes [] t = (t = [])"
| "str_includes (c # cs) t = (prefix t (c # cs) \<or> str_includes cs t)"

definition is_space :: "char \<Rightarrow> bool" where
  "is_space c = (c \<in> set [CHR 0x09, CHR 0x0A, CHR 0x0B, CHR 0x0C, CHR 0x0D, CHR 0x20])"

definition is_quote :: "char \<Rightarrow> bool" where
  "is_quote c = (c \<in> set [CHR 0x27, CHR 0x22, CHR 0x60])"

text \<open>\<^verbatim>\<open>s.trim()\<close>\<close>

definition trim :: "string \<Rightarrow> string" where
  "trim s = rev (dropWhile is_space (rev (dropWhile is_space s)))"

text \<open>\<^verbatim>\<open>s.split(',')\<close>: the pieces between the commas; never the empty list.\<close>

fun split_comma :: "string \<Rightarrow> string list" where
  "split_comma [] = [[]]"
| "split_comma (c # cs) =
     (if c = CHR '','' then [] # split_comma cs
      else (case split_comma cs of
              p # ps \<Rightarrow> (c # p) # ps
            | [] \<Rightarrow> [[c]]))"

section \<open>nlpService.js: validation and the pattern fallback\<close>

text \<open>\<^verbatim>\<open>Object.values(SUPPORTED_ACTIONS)\<close>\<close>

definition SUPPORTED_ACTIONS :: "(string \<times> string) list" where
  "SUPPORTED_ACTIONS =
     [(''NAVIGATE'', ''navigate''), (''CLICK'', ''click''), (''TYPE'', ''type''),
      (''WAIT'', ''wait''), (''VERIFY'', ''verify''), (''SCROLL'', ''scroll''),
      (''HOVER'', ''hover''), (''SELECT'', ''select''), (''UPLOAD'', ''upload''),
      (''SCREENSHOT'', ''screenshot'')]"

text \<open>\<^verbatim>\<open>Object.values(SUPPORTED_ACTIONS).includes(v)\<close>: only a string can be equal to a member.\<close>

fun is_supported :: "jsval \<Rightarrow> bool" where
  "is_supported (JStr s) = (s \<in> set (map snd SUPPORTED_ACTIONS))"
| "is_supported v = False"

text \<open>
  \<^verbatim>\<open>validateAction\<close>: every \<^verbatim>\<open>throw new Error(m)\<close> is \<open>Inl m\<close>, the returned object
  literal is \<open>Inr\<close>.
\<close>

definition validateAction :: "jsval \<Rightarrow> string + jsval" where
  "validateAction action =
     (if \<not> truthy action \<or> \<not> typeof_object action then Inl ''Action must be an object''
      else if \<not> truthy (get_prop action ''type'') \<or> \<not> is_supported (get_prop action ''type'')
        then Inl (''Invalid action type: '' @ ToString (get_prop action ''type''))
      else
        let ty = get_prop action ''type'';
            target = js_or (get_prop action ''target'') (JStr []);
            val = js_or (get_prop action ''value'') (JStr []);
            validatedAction = JObj
              [(''type'', ty),
               (''target'', target),
               (''value'', val),
               (''description'',
                  js_or (get_prop action ''description'')
                    (JStr (''Execute '' @ ToString ty @ '' action''))),
               (''waitFor'', js_or (get_prop action ''waitFor'') JNull),
               (''timeout'', js_or (get_prop action ''timeout'') (JNum 30000))]
        in
          if ty = JStr ''navigate'' then
            (if \<not> truthy val \<and> \<not> truthy target
             then Inl ''Navigate action requires a URL in value or target field''
             else Inr validatedAction)
          else if ty = JStr ''type'' then
            (if \<not> truthy val then Inl ''Type action requires a value to type''
             else Inr validatedAction)
          else if ty = JStr ''verify'' then
            (if \<not> truthy val \<and> \<not> truthy target
             then Inl ''Verify action requires something to verify''
             else Inr validatedAction)
          else Inr validatedAction)"

text \<open>
  \<^verbatim>\<open>extractQuotedText\<close>: the first match of the pattern "a quote character, one or more
  characters that are no quote, a quote character", where a quote character is any of
  the apostrophe, the double quote and the backtick. The search goes from left to right;
  at a quote the run of non-quote characters is taken as long as possible and must be
  non-empty and followed by a quote.
\<close>

fun extractQuotedText :: "string \<Rightarrow> string option" where
  "extractQuotedText [] = None"
| "extractQuotedText (c # cs) =
     (if is_quote c \<and> takeWhile (\<lambda>x. \<not> is_quote x) cs \<noteq> []
         \<and> dropWhile (\<lambda>x. \<not> is_quote x) cs \<noteq> []
      then Some (takeWhile (\<lambda>x. \<not> is_quote x) cs)
      else extractQuotedText cs)"

text \<open>
  \<^verbatim>\<open>extractUrl\<close>: the first match of \<^verbatim>\<open>https?:\/\/[^\s]+\<close>, that is the scheme followed by
  the longest non-empty run of characters that are no white space.
\<close>

definition url_at :: "string \<Rightarrow> string option" where
  "url_at s =
     (if prefix ''https://'' s \<and> takeWhile (\<lambda>x. \<not> is_space x) (drop 8 s) \<noteq> []
        then Some (''https://'' @ takeWhile (\<lambda>x. \<not> is_space x) (drop 8 s))
      else if prefix ''http://'' s \<and> takeWhile (\<lambda>x. \<not> is_space x) (drop 7 s) \<noteq> []
        then Some (''http://'' @ takeWhile (\<lambda>x. \<not> is_space x) (drop 7 s))
      else None)"

fun extractUrl :: "string \<Rightarrow> string option" where
  "extractUrl [] = None"
| "extractUrl (c # cs) =
     (case url_at (c # cs) of
        Some u \<Rightarrow> Some u
      | None \<Rightarrow> extractUrl cs)"

text \<open>\<^verbatim>\<open>x || d\<close> and \<^verbatim>\<open>if (x)\<close> for \<open>x\<close> a string or \<^verbatim>\<open>null\<close>.\<close>

fun str_or :: "string option \<Rightarrow> string \<Rightarrow> string" where
  "str_or None d = d"
| "str_or (Some t) d = (if t = [] then d else t)"

fun str_truthy :: "string option \<Rightarrow> bool" where
  "str_truthy None = False"
| "str_truthy (Some t) = (t \<noteq> [])"

text \<open>
  \<^verbatim>\<open>getFallbackAction\<close>: the three rules are tried in the order click, type, navigate;
  \<open>None\<close> is the \<^verbatim>\<open>null\<close> returned when no rule applies.
\<close>

definition getFallbackAction :: "string \<Rightarrow> jsval option" where
  "getFallbackAction command =
     (let lowerCommand = toLowerCase command in
      if str_includes lowerCommand ''click'' then
        (let buttonText = str_or (extractQuotedText command) ''button'' in
         Some (JObj
           [(''type'', JStr ''click''),
            (''target'', JStr (''button:has-text('' @ [CHR 0x27] @ buttonText @ [CHR 0x27]
                @ ''), [data-testid*='' @ [CHR 0x27] @ toLowerCase buttonText @ [CHR 0x27]
                @ '']'')),
            (''description'', JStr (''Click '' @ buttonText)),
            (''timeout'', JNum 30000)]))
      else if (str_includes lowerCommand ''type'' \<or> str_includes lowerCommand ''enter'')
              \<and> str_truthy (extractQuotedText command) then
        (let quoted = the (extractQuotedText command) in
         Some (JObj
           [(''type'', JStr ''type''),
            (''target'', JStr ''input, textarea''),
            (''value'', JStr quoted),
            (''description'', JStr (''Type '' @ [CHR 0x22] @ quoted @ [CHR 0x22])),
            (''timeout'', JNum 30000)]))
      else if (str_includes lowerCommand ''navigate'' \<or> str_includes lowerCommand ''go to'')
              \<and> str_truthy (extractUrl command) then
        (let url = the (extractUrl command) in
         Some (JObj
           [(''type'', JStr ''navigate''),
            (''target'', JStr url),
            (''value'', JStr url),
            (''description'', JStr (''Navigate to '' @ url)),
            (''timeout'', JNum 30000)]))
      else None)"


section \<open>The outside world\<close>

text \<open>
  The language model, the browser page, the clock, the identifier generator and the
  failures of the database are not part of the program. Every request to them is a
  \<open>call\<close>; the answer is a function of the calls made so far and of the call, so that
  a page may answer the same request differently at different times. The program threads
  the list of calls made (\<open>calls\<close>) and the contents of the database (\<open>store\<close>).
  Logging is left out.
\<close>

datatype 'a res = Threw string | Ok 'a

text \<open>A text that is the JSON serialisation of a value, or no JSON at all.\<close>

datatype json_text = JsonText jsval | NotJson

fun JSON_parse :: "json_text \<Rightarrow> jsval res" where
  "JSON_parse (JsonText v) = Ok v"
| "JSON_parse NotJson = Threw ''Unexpected token in JSON''"

text \<open>
  \<^verbatim>\<open>JSON.stringify\<close> of an action object: the objects serialised by the services have no
  property whose value is \<^verbatim>\<open>undefined\<close>, so parsing the text gives the object back.
\<close>

definition JSON_stringify :: "jsval \<Rightarrow> json_text" where
  "JSON_stringify v = JsonText v"

record session_row =
  sess_id :: string
  sess_name :: string
  sess_description :: jsval
  sess_status :: string
  total_steps :: int
  passed_steps :: int
  failed_steps :: int

record step_row =
  step_id :: string
  session_id :: string
  step_number :: int
  original_command :: string
  translated_action :: json_text
  action_type :: jsval
  target_element :: jsval
  actual_result :: jsval
  step_status :: string
  screenshot_path :: jsval
  error_message :: jsval
  execution_time :: jsval

record database =
  test_sessions :: "session_row list"
  test_steps :: "step_row list"

text \<open>The SQL statements of the services, with their parameters in the order of the source.\<close>

datatype db_op =
    InsertSession string string jsval int
  | InsertStep string string int string json_text jsval jsval
  | SelectSession string
  | SelectSteps string
  | UpdateSessionStatus string string
  | UpdateSessionResult string int int string
  | UpdateStepStatus string string
  | UpdateStepResult string jsval jsval jsval jsval string

text \<open>
  The calls: the chat completion for a command and a target URL; the identifier
  generator and the clock; the launch of the browser, the opening of the context and of
  the page and their closing; the methods of the page used by the executor, with their
  arguments in the order of the source (\<^verbatim>\<open>goto\<close> with the URL and the time-out,
  \<^verbatim>\<open>waitForSelector\<close> and \<^verbatim>\<open>click\<close> with the selector and the time-out, \<^verbatim>\<open>fill\<close> with
  the selector and the value, and so on), the two scrolls of the window, visibility and
  text of the first element of a locator, the screenshot written to a path; and the SQL
  statements. An answer is an exception with its message, a value, or a text (the
  content of a completion).
\<close>

datatype call =
    ChatCompletion string string
  | Uuid
  | DateNow
  | DateIso
  | BrowserLaunch
  | NewContext
  | NewPage
  | PageClose
  | ContextClose
  | BrowserClose
  | Goto jsval jsval
  | WaitForSelector jsval jsval
  | Click jsval jsval
  | Fill jsval jsval
  | WaitForTimeout int
  | Title
  | IsVisible jsval
  | TextContent jsval
  | ScrollToTop
  | ScrollToBottom
  | ScrollIntoView jsval
  | Hover jsval jsval
  | SelectOption jsval jsval jsval
  | Screenshot string
  | Db db_op

datatype resp = Throws string | Returns jsval | Replies json_text

type_synonym env = "call list \<Rightarrow> call \<Rightarrow> resp"

record world =
  calls :: "call list"
  store :: database

definition perform :: "env \<Rightarrow> call \<Rightarrow> world \<Rightarrow> resp \<times> world" where
  "perform env c w = (env (calls w) c, w\<lparr>calls := calls w @ [c]\<rparr>)"

text \<open>An awaited call whose value is not used: it resolves or it throws.\<close>

definition invoke :: "env \<Rightarrow> call \<Rightarrow> world \<Rightarrow> unit res \<times> world" where
  "invoke env c w =
     (case perform env c w of
        (Throws e, w') \<Rightarrow> (Threw e, w')
      | (r, w') \<Rightarrow> (Ok (), w'))"

text \<open>\<^verbatim>\<open>uuidv4()\<close>, \<^verbatim>\<open>Date.now()\<close> and \<^verbatim>\<open>new Date().toISOString()\<close> do not throw; an
  answer of the wrong type reads as the empty string or zero.\<close>

definition uuidv4 :: "env \<Rightarrow> world \<Rightarrow> string \<times> world" where
  "uuidv4 env w =
     (case perform env Uuid w of
        (Returns (JStr s), w') \<Rightarrow> (s, w')
      | (r, w') \<Rightarrow> ([], w'))"

definition Date_now :: "env \<Rightarrow> world \<Rightarrow> int \<times> world" where
  "Date_now env w =
     (case perform env DateNow w of
        (Returns (JNum t), w') \<Rightarrow> (t, w')
      | (r, w') \<Rightarrow> (0, w'))"

definition toISOString :: "env \<Rightarrow> world \<Rightarrow> string \<times> world" where
  "toISOString env w =
     (case perform env DateIso w of
        (Returns (JStr s), w') \<Rightarrow> (s, w')
      | (r, w') \<Rightarrow> ([], w'))"

subsection \<open>The database\<close>

text \<open>
  A statement fails when the outside world says so (an I/O error) or when an inserted
  row repeats a primary key; otherwise it changes the tables as SQL does. The defaults of
  the schema are \<^verbatim>\<open>'pending'\<close> for both status columns and zero for the counters.
\<close>

fun db_apply :: "db_op \<Rightarrow> database \<Rightarrow> string + database" where
  "db_apply (InsertSession sid name description n) d =
     (if sid \<in> set (map sess_id (test_sessions d))
      then Inl ''SQLITE_CONSTRAINT: UNIQUE constraint failed: test_sessions.id''
      else Inr (d\<lparr>test_sessions := test_sessions d @
        [\<lparr>sess_id = sid, sess_name = name, sess_description = description,
          sess_status = ''pending'', total_steps = n, passed_steps = 0,
          failed_steps = 0\<rparr>]\<rparr>))"
| "db_apply (InsertStep stid sid n command translated ty target) d =
     (if stid \<in> set (map step_id (test_steps d))
      then Inl ''SQLITE_CONSTRAINT: UNIQUE constraint failed: test_steps.id''
      else Inr (d\<lparr>test_steps := test_steps d @
        [\<lparr>step_id = stid, session_id = sid, step_number = n, original_command = command,
          translated_action = translated, action_type = ty, target_element = target,
          actual_result = JNull, step_status = ''pending'', screenshot_path = JNull,
          error_message = JNull, execution_time = JNull\<rparr>]\<rparr>))"
| "db_apply (SelectSession sid) d = Inr d"
| "db_apply (SelectSteps sid) d = Inr d"
| "db_apply (UpdateSessionStatus st sid) d =
     Inr (d\<lparr>test_sessions :=
       map (\<lambda>s. if sess_id s = sid then s\<lparr>sess_status := st\<rparr> else s) (test_sessions d)\<rparr>)"
| "db_apply (UpdateSessionResult st passed failed sid) d =
     Inr (d\<lparr>test_sessions :=
       map (\<lambda>s. if sess_id s = sid
                 then s\<lparr>sess_status := st, passed_steps := passed, failed_steps := failed\<rparr>
                 else s) (test_sessions d)\<rparr>)"
| "db_apply (UpdateStepStatus st stid) d =
     Inr (d\<lparr>test_steps :=
       map (\<lambda>r. if step_id r = stid then r\<lparr>step_status := st\<rparr> else r) (test_steps d)\<rparr>)"
| "db_apply (UpdateStepResult st actual err time shot stid) d =
     Inr (d\<lparr>test_steps :=
       map (\<lambda>r. if step_id r = stid
                 then r\<lparr>step_status := st, actual_result := actual, error_message := err,
                        execution_time := time, screenshot_path := shot\<rparr>
                 else r) (test_steps d)\<rparr>)"

text \<open>\<^verbatim>\<open>db.run\<close> wrapped in a promise.\<close>

definition db_run :: "env \<Rightarrow> db_op \<Rightarrow> world \<Rightarrow> unit res \<times> world" where
  "db_run env op w =
     (case perform env (Db op) w of
        (Throws e, w') \<Rightarrow> (Threw e, w')
      | (r, w') \<Rightarrow>
          (case db_apply op (store w') of
             Inl e \<Rightarrow> (Threw e, w')
           | Inr d \<Rightarrow> (Ok (), w'\<lparr>store := d\<rparr>)))"

text \<open>\<^verbatim>\<open>db.get('SELECT * FROM test_sessions WHERE id = ?')\<close>: the row, or \<^verbatim>\<open>undefined\<close>.\<close>

definition db_get_session :: "env \<Rightarrow> string \<Rightarrow> world \<Rightarrow> session_row option res \<times> world" where
  "db_get_session env sid w =
     (case perform env (Db (SelectSession sid)) w of
        (Throws e, w') \<Rightarrow> (Threw e, w')
      | (r, w') \<Rightarrow> (Ok (find (\<lambda>s. sess_id s = sid) (test_sessions (store w'))), w'))"

text \<open>\<^verbatim>\<open>db.all('SELECT * FROM test_steps WHERE session_id = ? ORDER BY step_number')\<close>\<close>

definition db_all_steps :: "env \<Rightarrow> string \<Rightarrow> world \<Rightarrow> step_row list res \<times> world" where
  "db_all_steps env sid w =
     (case perform env (Db (SelectSteps sid)) w of
        (Throws e, w') \<Rightarrow> (Threw e, w')
      | (r, w') \<Rightarrow>
          (Ok (sort_key step_number
                 (filter (\<lambda>r. session_id r = sid) (test_steps (store w')))), w'))"


subsection \<open>nlpService.js: translateCommand\<close>

text \<open>
  The reply of the model is the text of \<^verbatim>\<open>response.choices[0].message.content\<close>; an
  answer that is no text stands for a response without content, on which \<^verbatim>\<open>trim\<close>
  throws. Whatever is thrown inside the \<^verbatim>\<open>try\<close> (by the request, by \<^verbatim>\<open>JSON.parse\<close>, by
  the validation) reaches the \<^verbatim>\<open>catch\<close>, which returns the fallback action when there is
  one; the fallback action is returned as it is, without validation.
\<close>

definition translate_catch :: "string \<Rightarrow> string \<Rightarrow> jsval res" where
  "translate_catch command message =
     (case getFallbackAction command of
        Some fallbackAction \<Rightarrow> Ok fallbackAction
      | None \<Rightarrow> Threw (''Failed to translate command: '' @ message))"

definition translateCommand :: "env \<Rightarrow> string \<Rightarrow> string \<Rightarrow> world \<Rightarrow> jsval res \<times> world" where
  "translateCommand env command targetUrl w =
     (case perform env (ChatCompletion command targetUrl) w of
        (Throws e, w') \<Rightarrow> (translate_catch command e, w')
      | (Returns v, w') \<Rightarrow>
          (translate_catch command ''Cannot read properties of undefined (reading 'trim')'', w')
      | (Replies content, w') \<Rightarrow>
          (case JSON_parse content of
             Threw e \<Rightarrow> (translate_catch command ''Invalid response format from AI model'', w')
           | Ok translatedAction \<Rightarrow>
               (case validateAction translatedAction of
                  Inl e \<Rightarrow> (translate_catch command e, w')
                | Inr validatedAction \<Rightarrow> (Ok validatedAction, w'))))"

section \<open>testExecutor.js\<close>

definition executeNavigate :: "env \<Rightarrow> jsval \<Rightarrow> world \<Rightarrow> unit res \<times> world" where
  "executeNavigate env action w =
     (let url = js_or (get_prop action ''value'') (get_prop action ''target'')
      in invoke env (Goto url (get_prop action ''timeout'')) w)"

text \<open>
  The loop over the selectors of \<^verbatim>\<open>executeClick\<close>: \<open>True\<close> when the function returned
  from inside the loop, \<open>False\<close> when the loop ran to its end. Whatever a selector throws,
  in the wait or in the click, is caught and the next selector is tried.
\<close>

fun click_loop :: "env \<Rightarrow> jsval \<Rightarrow> string list \<Rightarrow> world \<Rightarrow> bool \<times> world" where
  "click_loop env action [] w = (False, w)"
| "click_loop env action (selector # selectors) w =
     (case invoke env (WaitForSelector (JStr selector) (JNum 5000)) w of
        (Threw e, w1) \<Rightarrow> click_loop env action selectors w1
      | (Ok u, w1) \<Rightarrow>
          (case invoke env (Click (JStr selector) (get_prop action ''timeout'')) w1 of
             (Threw e, w2) \<Rightarrow> click_loop env action selectors w2
           | (Ok u', w2) \<Rightarrow> (True, w2)))"

text \<open>\<^verbatim>\<open>action.target.split\<close> on a target that is no string throws a \<^verbatim>\<open>TypeError\<close>.\<close>

definition split_type_error :: "jsval \<Rightarrow> string" where
  "split_type_error target =
     (if is_nullish target
      then ''Cannot read properties of '' @ ToString target @ '' (reading 'split')''
      else ''action.target.split is not a function'')"

definition executeClick :: "env \<Rightarrow> jsval \<Rightarrow> world \<Rightarrow> unit res \<times> world" where
  "executeClick env action w =
     (case get_prop action ''target'' of
        JStr target \<Rightarrow>
          (case click_loop env action (map trim (split_comma target)) w of
             (True, w') \<Rightarrow> (Ok (), w')
           | (False, w') \<Rightarrow>
               (Threw (''Could not find clickable element with any of the selectors: ''
                         @ target), w'))
      | v \<Rightarrow> (Threw (split_type_error v), w))"

fun type_loop :: "env \<Rightarrow> jsval \<Rightarrow> string list \<Rightarrow> world \<Rightarrow> bool \<times> world" where
  "type_loop env action [] w = (False, w)"
| "type_loop env action (selector # selectors) w =
     (case invoke env (WaitForSelector (JStr selector) (JNum 5000)) w of
        (Threw e, w1) \<Rightarrow> type_loop env action selectors w1
      | (Ok u, w1) \<Rightarrow>
          (case invoke env (Fill (JStr selector) (get_prop action ''value'')) w1 of
             (Threw e, w2) \<Rightarrow> type_loop env action selectors w2
           | (Ok u', w2) \<Rightarrow> (True, w2)))"

definition executeType :: "env \<Rightarrow> jsval \<Rightarrow> world \<Rightarrow> unit res \<times> world" where
  "executeType env action w =
     (case get_prop action ''target'' of
        JStr target \<Rightarrow>
          (case type_loop env action (map trim (split_comma target)) w of
             (True, w') \<Rightarrow> (Ok (), w')
           | (False, w') \<Rightarrow>
               (Threw (''Could not find input element with any of the selectors: ''
                         @ target), w'))
      | v \<Rightarrow> (Threw (split_type_error v), w))"

text \<open>
  \<^verbatim>\<open>parseInt\<close> without a radix: leading white space, an optional sign, an optional
  \<^verbatim>\<open>0x\<close>, then the longest run of digits; \<open>None\<close> is \<^verbatim>\<open>NaN\<close>.
\<close>

definition digit_of :: "nat \<Rightarrow> char \<Rightarrow> nat option" where
  "digit_of base c =
     (case map_of (zip ''0123456789abcdef'' [0..<16]) (to_lower_char c) of
        Some d \<Rightarrow> (if d < base then Some d else None)
      | None \<Rightarrow> None)"

definition read_digits :: "nat \<Rightarrow> string \<Rightarrow> int option" where
  "read_digits base s =
     (let ds = takeWhile (\<lambda>c. digit_of base c \<noteq> None) s
      in if ds = [] then None
         else Some (int (foldl (\<lambda>a c. a * base + the (digit_of base c)) 0 ds)))"

definition read_unsigned :: "string \<Rightarrow> int option" where
  "read_unsigned s =
     (if prefix ''0x'' s \<or> prefix ''0X'' s then read_digits 16 (drop 2 s)
      else read_digits 10 s)"

definition parseInt :: "jsval \<Rightarrow> int option" where
  "parseInt v =
     (case dropWhile is_space (ToString v) of
        [] \<Rightarrow> None
      | c # cs \<Rightarrow>
          (if c = CHR ''-'' then map_option uminus (read_unsigned cs)
           else if c = CHR ''+'' then read_unsigned cs
           else read_unsigned (c # cs)))"

definition executeWait :: "env \<Rightarrow> jsval \<Rightarrow> world \<Rightarrow> unit res \<times> world" where
  "executeWait env action w =
     (if get_prop action ''target'' = JStr ''time'' \<or> \<not> truthy (get_prop action ''target'')
      then
        (let waitTime = (case parseInt (get_prop action ''value'') of
                           None \<Rightarrow> 1000
                         | Some n \<Rightarrow> (if n = 0 then 1000 else n))
         in invoke env (WaitForTimeout waitTime) w)
      else invoke env (WaitForSelector (get_prop action ''target'') (get_prop action ''timeout'')) w)"

text \<open>
  \<^verbatim>\<open>executeVerify\<close>. \<^verbatim>\<open>page.title()\<close> resolves to a string, \<^verbatim>\<open>textContent()\<close> to a
  string or \<^verbatim>\<open>null\<close>; reading \<^verbatim>\<open>includes\<close> of anything else is a \<^verbatim>\<open>TypeError\<close>.
\<close>

definition executeVerify :: "env \<Rightarrow> jsval \<Rightarrow> world \<Rightarrow> string res \<times> world" where
  \<open>executeVerify env action w =
     (if get_prop action ''target'' = JStr ''title'' then
        (case perform env Title w of
           (Throws e, w1) \<Rightarrow> (Threw e, w1)
         | (Returns (JStr title), w1) \<Rightarrow>
             (let expected = get_prop action ''value'' in
              if str_includes title (ToString expected)
              then (Ok (''Title verification passed: "'' @ title @ ''" contains "''
                          @ ToString expected @ ''"''), w1)
              else (Threw (''Title verification failed: "'' @ title
                             @ ''" does not contain "'' @ ToString expected @ ''"''), w1))
         | (r, w1) \<Rightarrow> (Threw ''title.includes is not a function'', w1))
      else
        (case perform env (IsVisible (get_prop action ''target'')) w of
           (Throws e, w1) \<Rightarrow> (Threw e, w1)
         | (Replies t, w1) \<Rightarrow>
             (Threw (''Element not visible: '' @ ToString (get_prop action ''target'')), w1)
         | (Returns isVisible, w1) \<Rightarrow>
             (if \<not> truthy isVisible
              then (Threw (''Element not visible: ''
                             @ ToString (get_prop action ''target'')), w1)
              else if truthy (get_prop action ''value'') then
                (case perform env (TextContent (get_prop action ''target'')) w1 of
                   (Throws e, w2) \<Rightarrow> (Threw e, w2)
                 | (Returns (JStr text), w2) \<Rightarrow>
                     (if \<not> str_includes text (ToString (get_prop action ''value''))
                      then (Threw (''Text verification failed: "'' @ text
                                     @ ''" does not contain "''
                                     @ ToString (get_prop action ''value'') @ ''"''), w2)
                      else (Ok (''Text verification passed: found "''
                                  @ ToString (get_prop action ''value'') @ ''"''), w2))
                 | (r, w2) \<Rightarrow>
                     (Threw ''Cannot read properties of null (reading 'includes')'', w2))
              else (Ok (''Element verification passed: ''
                          @ ToString (get_prop action ''target'') @ '' is visible''), w1))))\<close>

definition executeScroll :: "env \<Rightarrow> jsval \<Rightarrow> world \<Rightarrow> unit res \<times> world" where
  "executeScroll env action w =
     (if get_prop action ''target'' = JStr ''top'' then invoke env ScrollToTop w
      else if get_prop action ''target'' = JStr ''bottom'' then invoke env ScrollToBottom w
      else invoke env (ScrollIntoView (get_prop action ''target'')) w)"

definition executeHover :: "env \<Rightarrow> jsval \<Rightarrow> world \<Rightarrow> unit res \<times> world" where
  "executeHover env action w =
     invoke env (Hover (get_prop action ''target'') (get_prop action ''timeout'')) w"

definition executeSelect :: "env \<Rightarrow> jsval \<Rightarrow> world \<Rightarrow> unit res \<times> world" where
  "executeSelect env action w =
     invoke env (SelectOption (get_prop action ''target'') (get_prop action ''value'')
                   (get_prop action ''timeout'')) w"

text \<open>
  \<^verbatim>\<open>takeScreenshot\<close>: the whole body is inside \<^verbatim>\<open>try\<close>, and the \<^verbatim>\<open>catch\<close> returns
  \<^verbatim>\<open>null\<close>. The colons and dots of the time stamp become hyphens; the file is written
  below the directory \<^verbatim>\<open>screenshots\<close>.
\<close>

definition takeScreenshot :: "env \<Rightarrow> string \<Rightarrow> string \<Rightarrow> string \<Rightarrow> world \<Rightarrow> jsval res \<times> world" where
  "takeScreenshot env sessionId stepId kind w =
     (case toISOString env w of
        (stamp, w1) \<Rightarrow>
          (let timestamp = map (\<lambda>c. if c = CHR '':'' \<or> c = CHR ''.'' then CHR ''-'' else c) stamp;
               filename = sessionId @ ''_'' @ stepId @ ''_'' @ kind @ ''_'' @ timestamp @ ''.png'';
               screenshotPath = ''screenshots/'' @ filename
           in case invoke env (Screenshot screenshotPath) w1 of
                (Threw e, w2) \<Rightarrow> (Ok JNull, w2)
              | (Ok u, w2) \<Rightarrow> (Ok (JStr (''/screenshots/'' @ filename)), w2)))"


text \<open>
  The \<^verbatim>\<open>switch\<close> of \<^verbatim>\<open>executeStep\<close>. The result is the pair of \<^verbatim>\<open>result.actualResult\<close>
  and \<^verbatim>\<open>screenshotPath\<close> after the \<^verbatim>\<open>switch\<close>; both are \<^verbatim>\<open>null\<close> unless a case sets
  them. There is no case for \<^verbatim>\<open>upload\<close>.
\<close>

definition no_result :: "unit res \<times> world \<Rightarrow> (jsval \<times> jsval) res \<times> world" where
  "no_result rw =
     (case rw of
        (Threw e, w) \<Rightarrow> (Threw e, w)
      | (Ok u, w) \<Rightarrow> (Ok (JNull, JNull), w))"

definition run_action ::
  "env \<Rightarrow> jsval \<Rightarrow> string \<Rightarrow> string \<Rightarrow> world \<Rightarrow> (jsval \<times> jsval) res \<times> world" where
  "run_action env action sessionId stepId w =
     (if is_nullish action
      then (Threw (''Cannot read properties of '' @ ToString action @ '' (reading 'type')''), w)
      else if get_prop action ''type'' = JStr ''navigate'' then no_result (executeNavigate env action w)
      else if get_prop action ''type'' = JStr ''click'' then no_result (executeClick env action w)
      else if get_prop action ''type'' = JStr ''type'' then no_result (executeType env action w)
      else if get_prop action ''type'' = JStr ''wait'' then no_result (executeWait env action w)
      else if get_prop action ''type'' = JStr ''verify'' then
        (case executeVerify env action w of
           (Threw e, w') \<Rightarrow> (Threw e, w')
         | (Ok message, w') \<Rightarrow> (Ok (JStr message, JNull), w'))
      else if get_prop action ''type'' = JStr ''scroll'' then no_result (executeScroll env action w)
      else if get_prop action ''type'' = JStr ''hover'' then no_result (executeHover env action w)
      else if get_prop action ''type'' = JStr ''select'' then no_result (executeSelect env action w)
      else if get_prop action ''type'' = JStr ''screenshot'' then
        (case takeScreenshot env sessionId stepId ''step'' w of
           (Threw e, w') \<Rightarrow> (Threw e, w')
         | (Ok path, w') \<Rightarrow> (Ok (JNull, path), w'))
      else (Threw (''Unsupported action type: '' @ ToString (get_prop action ''type'')), w))"

text \<open>
  The body of the \<^verbatim>\<open>try\<close> of \<^verbatim>\<open>executeStep\<close> up to the screenshot taken after the
  action: parse the stored action, mark the step as running, run the action, and take a
  screenshot unless the action left a path.
\<close>

definition step_try ::
  "env \<Rightarrow> step_row \<Rightarrow> string \<Rightarrow> world \<Rightarrow> (jsval \<times> jsval) res \<times> world" where
  "step_try env step sessionId w =
     (case JSON_parse (translated_action step) of
        Threw e \<Rightarrow> (Threw e, w)
      | Ok action \<Rightarrow>
          (case db_run env (UpdateStepStatus ''running'' (step_id step)) w of
             (Threw e, w1) \<Rightarrow> (Threw e, w1)
           | (Ok u, w1) \<Rightarrow>
               (case run_action env action sessionId (step_id step) w1 of
                  (Threw e, w2) \<Rightarrow> (Threw e, w2)
                | (Ok (actualResult, screenshotPath), w2) \<Rightarrow>
                    (if \<not> truthy screenshotPath then
                       (case takeScreenshot env sessionId (step_id step) ''step'' w2 of
                          (Threw e, w3) \<Rightarrow> (Threw e, w3)
                        | (Ok path, w3) \<Rightarrow> (Ok (actualResult, path), w3))
                     else (Ok (actualResult, screenshotPath), w2)))))"

text \<open>
  The \<^verbatim>\<open>try\<close> and the \<^verbatim>\<open>catch\<close> of \<^verbatim>\<open>executeStep\<close>: the status, the error, the actual
  result and the screenshot path with which the \<^verbatim>\<open>finally\<close> block is entered.
\<close>

definition step_attempt ::
  "env \<Rightarrow> step_row \<Rightarrow> string \<Rightarrow> world \<Rightarrow> (string \<times> jsval \<times> jsval \<times> jsval) \<times> world" where
  "step_attempt env step sessionId w =
     (case step_try env step sessionId w of
        (Ok (actualResult, screenshotPath), w1) \<Rightarrow>
          ((''passed'', JNull,
            js_or actualResult (JStr ''Action completed successfully''), screenshotPath), w1)
      | (Threw message, w1) \<Rightarrow>
          (case takeScreenshot env sessionId (step_id step) ''error'' w1 of
             (Ok path, w2) \<Rightarrow> ((''failed'', JStr message, JNull, path), w2)
           | (Threw e, w2) \<Rightarrow> ((''failed'', JStr message, JNull, JNull), w2)))"

text \<open>
  \<^verbatim>\<open>executeStep\<close>: the result object has the five properties of the literal in the source;
  when the update of the \<^verbatim>\<open>finally\<close> block is rejected, the function throws.
\<close>

definition executeStep :: "env \<Rightarrow> step_row \<Rightarrow> string \<Rightarrow> world \<Rightarrow> jsval res \<times> world" where
  "executeStep env step sessionId w =
     (case Date_now env w of
        (startTime, w0) \<Rightarrow>
          (case step_attempt env step sessionId w0 of
             ((status, err, actualResult, screenshotPath), w2) \<Rightarrow>
               (case Date_now env w2 of
                  (endTime, w3) \<Rightarrow>
                    (case db_run env
                            (UpdateStepResult status actualResult err
                               (JNum (endTime - startTime)) screenshotPath (step_id step)) w3 of
                       (Threw e, w4) \<Rightarrow> (Threw e, w4)
                     | (Ok u, w4) \<Rightarrow>
                         (Ok (JObj [(''stepId'', JStr (step_id step)),
                                    (''status'', JStr status),
                                    (''error'', err),
                                    (''actualResult'', actualResult),
                                    (''executionTime'', JNum (endTime - startTime))]), w4)))))"

text \<open>
  The loop of \<^verbatim>\<open>executeTest\<close>: the result of each step is pushed; the loop is left when
  the result has the status \<^verbatim>\<open>failed\<close> and a truthy property \<^verbatim>\<open>critical\<close>.
\<close>

fun run_steps :: "env \<Rightarrow> string \<Rightarrow> step_row list \<Rightarrow> jsval list \<Rightarrow> world \<Rightarrow> jsval list res \<times> world" where
  "run_steps env sessionId [] results w = (Ok results, w)"
| "run_steps env sessionId (step # steps) results w =
     (case executeStep env step sessionId w of
        (Threw e, w1) \<Rightarrow> (Threw e, w1)
      | (Ok result, w1) \<Rightarrow>
          (if get_prop result ''status'' = JStr ''failed'' \<and> truthy (get_prop result ''critical'')
           then (Ok (results @ [result]), w1)
           else run_steps env sessionId steps (results @ [result]) w1))"

text \<open>The \<^verbatim>\<open>finally\<close> block: the closes run in order; one that throws ends the block.\<close>

fun close_all :: "env \<Rightarrow> call list \<Rightarrow> world \<Rightarrow> unit res \<times> world" where
  "close_all env [] w = (Ok (), w)"
| "close_all env (c # cs) w =
     (case invoke env c w of
        (Threw e, w') \<Rightarrow> (Threw e, w')
      | (Ok u, w') \<Rightarrow> close_all env cs w')"

definition finally_close :: "env \<Rightarrow> call list \<Rightarrow> 'a res \<times> world \<Rightarrow> 'a res \<times> world" where
  "finally_close env cs rw =
     (case rw of
        (r, w) \<Rightarrow>
          (case close_all env cs w of
             (Threw e, w') \<Rightarrow> (Threw e, w')
           | (Ok u, w') \<Rightarrow> (r, w')))"

definition executeTest :: "env \<Rightarrow> string \<Rightarrow> step_row list \<Rightarrow> world \<Rightarrow> jsval list res \<times> world" where
  "executeTest env sessionId steps w =
     (case invoke env BrowserLaunch w of
        (Threw e, w1) \<Rightarrow> (Threw e, w1)
      | (Ok u, w1) \<Rightarrow>
          (case invoke env NewContext w1 of
             (Threw e, w2) \<Rightarrow> finally_close env [BrowserClose] (Threw e, w2)
           | (Ok u', w2) \<Rightarrow>
               (case invoke env NewPage w2 of
                  (Threw e, w3) \<Rightarrow> finally_close env [ContextClose, BrowserClose] (Threw e, w3)
                | (Ok u'', w3) \<Rightarrow>
                    finally_close env [PageClose, ContextClose, BrowserClose]
                      (run_steps env sessionId steps [] w3))))"

section \<open>The routes\<close>

record response =
  http_status :: nat
  body :: jsval

record create_request =
  req_name :: string
  req_description :: jsval
  req_commands :: "string list"
  req_targetUrl :: string

text \<open>
  The loop of the route \<^verbatim>\<open>POST /create\<close>, with \<open>i\<close> the index of the first command of the
  list. A command whose translation or whose insertion throws is reported as a failed
  step in the response; no row is written for it.
\<close>

fun create_steps ::
  "env \<Rightarrow> string \<Rightarrow> string \<Rightarrow> string list \<Rightarrow> int \<Rightarrow> jsval list \<Rightarrow> world \<Rightarrow> jsval list \<times> world" where
  "create_steps env sessionId targetUrl [] i steps w = (steps, w)"
| "create_steps env sessionId targetUrl (command # commands) i steps w =
     (case uuidv4 env w of
        (stepId, w1) \<Rightarrow>
          (case translateCommand env command targetUrl w1 of
             (Threw e, w2) \<Rightarrow>
               create_steps env sessionId targetUrl commands (i + 1)
                 (steps @ [JObj [(''id'', JStr stepId), (''stepNumber'', JNum (i + 1)),
                                 (''originalCommand'', JStr command),
                                 (''status'', JStr ''failed''), (''error'', JStr e)]]) w2
           | (Ok translatedAction, w2) \<Rightarrow>
               (case db_run env
                       (InsertStep stepId sessionId (i + 1) command
                          (JSON_stringify translatedAction)
                          (get_prop translatedAction ''type'')
                          (get_prop translatedAction ''target'')) w2 of
                  (Threw e, w3) \<Rightarrow>
                    create_steps env sessionId targetUrl commands (i + 1)
                      (steps @ [JObj [(''id'', JStr stepId), (''stepNumber'', JNum (i + 1)),
                                      (''originalCommand'', JStr command),
                                      (''status'', JStr ''failed''), (''error'', JStr e)]]) w3
                | (Ok u, w3) \<Rightarrow>
                    create_steps env sessionId targetUrl commands (i + 1)
                      (steps @ [JObj [(''id'', JStr stepId), (''stepNumber'', JNum (i + 1)),
                                      (''originalCommand'', JStr command),
                                      (''translatedAction'', translatedAction),
                                      (''status'', JStr ''pending'')]]) w3)))"

text \<open>
  \<^verbatim>\<open>POST /create\<close>. The argument is the outcome of \<^verbatim>\<open>createTestSchema.validate(req.body)\<close>:
  the message of the first error, or the validated value.
\<close>

definition router_post_create :: "env \<Rightarrow> string + create_request \<Rightarrow> world \<Rightarrow> response \<times> world" where
  "router_post_create env validated w =
     (case validated of
        Inl message \<Rightarrow> (\<lparr>http_status = 400, body = JObj [(''error'', JStr message)]\<rparr>, w)
      | Inr v \<Rightarrow>
          (case uuidv4 env w of
             (sessionId, w1) \<Rightarrow>
               (case db_run env
                       (InsertSession sessionId (req_name v) (req_description v)
                          (int (length (req_commands v)))) w1 of
                  (Threw e, w2) \<Rightarrow>
                    (\<lparr>http_status = 500,
                      body = JObj [(''error'', JStr ''Failed to create test session'')]\<rparr>, w2)
                | (Ok u, w2) \<Rightarrow>
                    (case create_steps env sessionId (req_targetUrl v) (req_commands v) 0 [] w2 of
                       (steps, w3) \<Rightarrow>
                         (\<lparr>http_status = 200,
                           body = JObj [(''sessionId'', JStr sessionId),
                                        (''name'', JStr (req_name v)),
                                        (''description'', req_description v),
                                        (''targetUrl'', JStr (req_targetUrl v)),
                                        (''steps'', JArr steps),
                                        (''status'', JStr ''created'')]\<rparr>, w3)))))"

text \<open>\<^verbatim>\<open>results.filter(r => r.status === s).length\<close>\<close>

definition count_status :: "string \<Rightarrow> jsval list \<Rightarrow> nat" where
  "count_status s results = length (filter (\<lambda>r. get_prop r ''status'' = JStr s) results)"

definition execute_failure :: response where
  "execute_failure =
     \<lparr>http_status = 500, body = JObj [(''error'', JStr ''Failed to execute test session'')]\<rparr>"

text \<open>\<^verbatim>\<open>POST /execute/:sessionId\<close>\<close>

definition router_post_execute :: "env \<Rightarrow> string \<Rightarrow> world \<Rightarrow> response \<times> world" where
  "router_post_execute env sessionId w =
     (case db_get_session env sessionId w of
        (Threw e, w1) \<Rightarrow> (execute_failure, w1)
      | (Ok None, w1) \<Rightarrow>
          (\<lparr>http_status = 404, body = JObj [(''error'', JStr ''Test session not found'')]\<rparr>, w1)
      | (Ok (Some session), w1) \<Rightarrow>
          (case db_all_steps env sessionId w1 of
             (Threw e, w2) \<Rightarrow> (execute_failure, w2)
           | (Ok steps, w2) \<Rightarrow>
               (case db_run env (UpdateSessionStatus ''running'' sessionId) w2 of
                  (Threw e, w3) \<Rightarrow> (execute_failure, w3)
                | (Ok u, w3) \<Rightarrow>
                    (case executeTest env sessionId steps w3 of
                       (Threw e, w4) \<Rightarrow> (execute_failure, w4)
                     | (Ok results, w4) \<Rightarrow>
                         (let passedSteps = int (count_status ''passed'' results);
                              failedSteps = int (count_status ''failed'' results);
                              finalStatus = (if failedSteps > 0 then ''failed'' else ''passed'')
                          in case db_run env
                                    (UpdateSessionResult finalStatus passedSteps failedSteps
                                       sessionId) w4 of
                               (Threw e, w5) \<Rightarrow> (execute_failure, w5)
                             | (Ok u', w5) \<Rightarrow>
                                 (\<lparr>http_status = 200,
                                   body = JObj
                                     [(''sessionId'', JStr sessionId),
                                      (''status'', JStr finalStatus),
                                      (''results'', JArr results),
                                      (''summary'', JObj
                                         [(''total'', JNum (int (length steps))),
                                          (''passed'', JNum passedSteps),
                                          (''failed'', JNum failedSteps)])]\<rparr>, w5))))))"

section \<open>Notions used in the statements\<close>

text \<open>\<^verbatim>\<open>Object.keys(v)\<close>\<close>

fun object_keys :: "jsval \<Rightarrow> string list" where
  "object_keys (JObj kvs) = map fst kvs"
| "object_keys v = []"

text \<open>
  A quoted string at the head of a text: a quote character, a non-empty body free of
  quote characters, and a closing quote character. The first quoted string of a text is
  the one that starts leftmost.
\<close>

definition quoted_head :: "string \<Rightarrow> string \<Rightarrow> bool" where
  "quoted_head s quoted \<longleftrightarrow>
     (\<exists>q1 q2 rest. s = q1 # quoted @ q2 # rest \<and> is_quote q1 \<and> is_quote q2
        \<and> quoted \<noteq> [] \<and> (\<forall>c \<in> set quoted. \<not> is_quote c))"

definition first_quoted :: "string \<Rightarrow> string \<Rightarrow> bool" where
  "first_quoted s quoted \<longleftrightarrow>
     (\<exists>i. quoted_head (drop i s) quoted \<and> (\<forall>j<i. \<forall>b. \<not> quoted_head (drop j s) b))"

section \<open>Sample worlds\<close>

definition empty_world :: world where
  "empty_world = \<lparr>calls = [], store = \<lparr>test_sessions = [], test_steps = []\<rparr>\<rparr>"


text \<open>
  A page titled \<^verbatim>\<open>Example Domain\<close> on which only the selector \<^verbatim>\<open>#b\<close> exists and only
  \<^verbatim>\<open>https://example.com\<close> can be reached; the language model is unavailable, the database
  and the browser work.
\<close>

definition example_page :: env where
  "example_page history c =
     (case c of
        ChatCompletion command url \<Rightarrow> Throws ''API Error''
      | Uuid \<Rightarrow> Returns (JStr (replicate (Suc (length history)) CHR ''u''))
      | DateNow \<Rightarrow> Returns (JNum (int (length history)))
      | DateIso \<Rightarrow> Returns (JStr ''2024-01-01T00:00:00.000Z'')
      | Goto url t \<Rightarrow>
          (if url = JStr ''https://example.com'' then Returns JNull
           else Throws ''net::ERR_NAME_NOT_RESOLVED'')
      | WaitForSelector selector t \<Rightarrow>
          (if selector = JStr ''#b'' then Returns JNull else Throws ''Timeout 5000ms exceeded'')
      | Title \<Rightarrow> Returns (JStr ''Example Domain'')
      | _ \<Rightarrow> Returns JUndefined)"

text \<open>A stored step, as the route \<^verbatim>\<open>POST /create\<close> writes it.\<close>

definition stored_step :: "string \<Rightarrow> string \<Rightarrow> int \<Rightarrow> string \<Rightarrow> jsval \<Rightarrow> step_row" where
  "stored_step stid sid n command action =
     \<lparr>step_id = stid, session_id = sid, step_number = n, original_command = command,
      translated_action = JSON_stringify action, action_type = get_prop action ''type'',
      target_element = get_prop action ''target'', actual_result = JNull,
      step_status = ''pending'', screenshot_path = JNull, error_message = JNull,
      execution_time = JNull\<rparr>"

text \<open>Whether an answer is an exception, and the existence probe of a selector.\<close>

fun throws :: "resp \<Rightarrow> bool" where
  "throws (Throws e) = True"
| "throws r = False"

abbreviation probe :: "string \<Rightarrow> call" where
  "probe selector \<equiv> WaitForSelector (JStr selector) (JNum 5000)"

text \<open>The number of screenshot captures among the calls made.\<close>

fun is_screenshot :: "call \<Rightarrow> bool" where
  "is_screenshot (Screenshot path) = True"
| "is_screenshot c = False"

definition captures :: "world \<Rightarrow> nat" where
  "captures w = length (filter is_screenshot (calls w))"

text \<open>
  A step whose stored action is an explicit screenshot action, and whether the part of a
  step that comes before any capture made for the record (parsing the stored action,
  marking the step as running, running the action) ends without an exception.
\<close>

definition explicit_screenshot :: "step_row \<Rightarrow> bool" where
  "explicit_screenshot step =
     (case translated_action step of
        JsonText action \<Rightarrow> \<not> is_nullish action \<and> get_prop action ''type'' = JStr ''screenshot''
      | NotJson \<Rightarrow> False)"

definition action_succeeds :: "env \<Rightarrow> step_row \<Rightarrow> string \<Rightarrow> world \<Rightarrow> bool" where
  "action_succeeds env step sessionId w =
     (case JSON_parse (translated_action step) of
        Threw e \<Rightarrow> False
      | Ok action \<Rightarrow>
          (case db_run env (UpdateStepStatus ''running'' (step_id step)) w of
             (Threw e, w1) \<Rightarrow> False
           | (Ok u, w1) \<Rightarrow>
               (case fst (run_action env action sessionId (step_id step) w1) of
                  Threw e \<Rightarrow> False
                | Ok out \<Rightarrow> True)))"

text \<open>
  A stored session of three steps: a navigation to a host that cannot be reached, a click
  with three candidate selectors, and a verification of the title; and a step that is an
  explicit screenshot.
\<close>

definition navigate_unreachable :: jsval where
  "navigate_unreachable =
     JObj [(''type'', JStr ''navigate''), (''target'', JStr ''https://bad.invalid''),
           (''value'', JStr ''https://bad.invalid''),
           (''description'', JStr ''Navigate to https://bad.invalid''),
           (''timeout'', JNum 30000)]"

definition click_candidates :: jsval where
  "click_candidates =
     JObj [(''type'', JStr ''click''), (''target'', JStr ''.a, #b, text=Foo''),
           (''value'', JStr []), (''description'', JStr ''Execute click action''),
           (''waitFor'', JNull), (''timeout'', JNum 30000)]"

definition verify_title :: "string \<Rightarrow> jsval" where
  "verify_title expected =
     JObj [(''type'', JStr ''verify''), (''target'', JStr ''title''),
           (''value'', JStr expected), (''description'', JStr ''Execute verify action''),
           (''waitFor'', JNull), (''timeout'', JNum 30000)]"

definition screenshot_action :: jsval where
  "screenshot_action =
     JObj [(''type'', JStr ''screenshot''), (''target'', JStr []), (''value'', JStr []),
           (''description'', JStr ''Execute screenshot action''), (''waitFor'', JNull),
           (''timeout'', JNum 30000)]"

definition three_steps :: world where
  "three_steps =
     \<lparr>calls = [],
      store = \<lparr>test_sessions =
                 [\<lparr>sess_id = ''s1'', sess_name = ''login'', sess_description = JNull,
                   sess_status = ''pending'', total_steps = 3, passed_steps = 0,
                   failed_steps = 0\<rparr>],
               test_steps =
                 [stored_step ''a'' ''s1'' 1 ''Go to https://bad.invalid'' navigate_unreachable,
                  stored_step ''b'' ''s1'' 2 ''Click Foo'' click_candidates,
                  stored_step ''c'' ''s1'' 3 ''Check the title'' (verify_title ''Example'')]\<rparr>\<rparr>"

text \<open>The same page when every capture of a screenshot fails.\<close>

definition capture_fails :: env where
  "capture_fails history c =
     (case c of
        Screenshot path \<Rightarrow> Throws ''Protocol error: unable to capture screenshot''
      | _ \<Rightarrow> example_page history c)"

text \<open>
  How the execution of steps changes the database: the sessions are left alone, the step
  rows keep their place, their identifier and their session; a row whose identifier is
  not in \<open>touched\<close> is unchanged, and a row whose identifier is in \<open>settled\<close> ends with the
  status \<^verbatim>\<open>passed\<close> or \<^verbatim>\<open>failed\<close>.
\<close>

definition step_update :: "string set \<Rightarrow> string set \<Rightarrow> database \<Rightarrow> database \<Rightarrow> bool" where
  "step_update touched settled d d' \<longleftrightarrow>
     test_sessions d' = test_sessions d
     \<and> (\<exists>g. test_steps d' = map g (test_steps d)
           \<and> (\<forall>r. step_id (g r) = step_id r \<and> session_id (g r) = session_id r
                 \<and> (step_id r \<notin> touched \<longrightarrow> g r = r)
                 \<and> (step_id r \<in> settled \<longrightarrow>
                      step_status (g r) = ''passed'' \<or> step_status (g r) = ''failed'')))"

text \<open>The step rows of a session, and those of them that are still pending.\<close>

definition session_steps :: "string \<Rightarrow> world \<Rightarrow> step_row list" where
  "session_steps sid w = filter (\<lambda>r. session_id r = sid) (test_steps (store w))"

definition pending_steps :: "string \<Rightarrow> world \<Rightarrow> step_row list" where
  "pending_steps sid w = filter (\<lambda>r. step_status r = ''pending'') (session_steps sid w)"

text \<open>
  A session that has already been executed: its status is \<^verbatim>\<open>passed\<close>, and so is the status of
  its only step. And a request to create a session from two commands, of which the
  second matches no rule of the fallback.
\<close>

definition finished_session :: world where
  "finished_session =
     \<lparr>calls = [],
      store = \<lparr>test_sessions =
                 [\<lparr>sess_id = ''s2'', sess_name = ''title'', sess_description = JNull,
                   sess_status = ''passed'', total_steps = 1, passed_steps = 1,
                   failed_steps = 0\<rparr>],
               test_steps =
                 [(stored_step ''e'' ''s2'' 1 ''Check the title'' (verify_title ''Example''))
                    \<lparr>step_status := ''passed''\<rparr>]\<rparr>\<rparr>"

definition two_commands :: create_request where
  "two_commands =
     \<lparr>req_name = ''smoke'', req_description = JUndefined,
      req_commands = [''Go to https://example.com'', ''do something''],
      req_targetUrl = ''https://example.com''\<rparr>"


section \<open>Validation\<close>

lemma get_prop_string_object:
  "get_prop action k = JStr s \<Longrightarrow> truthy action \<and> typeof_object action"
  by (cases action) auto

text \<open>
  C5. An action of kind \<^verbatim>\<open>type\<close> whose value is falsy (absent, \<^verbatim>\<open>null\<close> or the empty string
  among others) is rejected by the validation with the message that names the value; with
  a truthy value, in particular a non-empty string, it is accepted and the value is kept.
  The validation is a function of the action alone: it makes no call and touches no state.
\<close>

theorem validateAction_type_value:
  assumes "get_prop action ''type'' = JStr ''type''"
  shows "(\<not> truthy (get_prop action ''value'') \<longrightarrow>
            validateAction action = Inl ''Type action requires a value to type'')
       \<and> (truthy (get_prop action ''value'') \<longrightarrow>
            (\<exists>a. validateAction action = Inr a
               \<and> get_prop a ''type'' = JStr ''type''
               \<and> get_prop a ''value'' = get_prop action ''value''))"
  using assms get_prop_string_object [OF assms]
  by (simp add: validateAction_def js_or_def Let_def SUPPORTED_ACTIONS_def)

theorem validateAction_type_value_witness:
  \<open>validateAction (JObj [(''type'', JStr ''type''), (''target'', JStr ''input[name="email"]'')])
     = Inl ''Type action requires a value to type''
   \<and> validateAction (JObj [(''type'', JStr ''type''), (''value'', JStr [])])
     = Inl ''Type action requires a value to type''
   \<and> (\<exists>a. validateAction (JObj [(''type'', JStr ''type''), (''value'', JStr ''hello'')]) = Inr a
          \<and> get_prop a ''type'' = JStr ''type'' \<and> get_prop a ''value'' = JStr ''hello'')\<close>
  using validateAction_type_value
          [of \<open>JObj [(''type'', JStr ''type''), (''target'', JStr ''input[name="email"]'')]\<close>]
        validateAction_type_value [of "JObj [(''type'', JStr ''type''), (''value'', JStr [])]"]
        validateAction_type_value [of "JObj [(''type'', JStr ''type''), (''value'', JStr ''hello'')]"]
  by simp

text \<open>
  C10, as the code has it. An accepted action has exactly the six properties, in the
  order of the literal. Its time-out is truthy: a falsy time-out of the input (absent,
  \<^verbatim>\<open>null\<close>, zero) becomes 30000 and a truthy one is kept. The target, the value and the
  description are not forced to be strings: a truthy value of the input is kept whatever
  its type, so each of them is a string exactly when the input gave a string or a falsy
  value.
\<close>

theorem validateAction_shape:
  assumes "validateAction action = Inr a"
  shows "object_keys a = [''type'', ''target'', ''value'', ''description'', ''waitFor'', ''timeout'']
       \<and> truthy (get_prop a ''timeout'')
       \<and> (\<not> truthy (get_prop action ''timeout'') \<longrightarrow> get_prop a ''timeout'' = JNum 30000)
       \<and> (truthy (get_prop action ''timeout'') \<longrightarrow>
            get_prop a ''timeout'' = get_prop action ''timeout'')
       \<and> (\<forall>k \<in> {''target'', ''value'', ''description''}.
            (truthy (get_prop action k) \<longrightarrow> get_prop a k = get_prop action k)
          \<and> (is_string (get_prop a k) \<longleftrightarrow>
               is_string (get_prop action k) \<or> \<not> truthy (get_prop action k)))"
proof -
  have a: "a = JObj
              [(''type'', get_prop action ''type''),
               (''target'', js_or (get_prop action ''target'') (JStr [])),
               (''value'', js_or (get_prop action ''value'') (JStr [])),
               (''description'',
                  js_or (get_prop action ''description'')
                    (JStr (''Execute '' @ ToString (get_prop action ''type'') @ '' action''))),
               (''waitFor'', js_or (get_prop action ''waitFor'') JNull),
               (''timeout'', js_or (get_prop action ''timeout'') (JNum 30000))]"
    using assms by (auto simp: validateAction_def Let_def split: if_splits)
  show ?thesis
    unfolding a by (auto simp: js_or_def)
qed

theorem validateAction_shape_witness:
  "validateAction (JObj [(''type'', JStr ''click''), (''timeout'', JNum 0)])
     = Inr (JObj [(''type'', JStr ''click''), (''target'', JStr []), (''value'', JStr []),
         (''description'', JStr ''Execute click action''), (''waitFor'', JNull),
         (''timeout'', JNum 30000)])
   \<and> object_keys (JObj [(''type'', JStr ''click''), (''target'', JStr []), (''value'', JStr []),
         (''description'', JStr ''Execute click action''), (''waitFor'', JNull),
         (''timeout'', JNum 30000)])
     = [''type'', ''target'', ''value'', ''description'', ''waitFor'', ''timeout'']
   \<and> truthy (get_prop (JObj [(''type'', JStr ''click''), (''target'', JStr []),
         (''value'', JStr []), (''description'', JStr ''Execute click action''),
         (''waitFor'', JNull), (''timeout'', JNum 30000)]) ''timeout'')"
proof -
  have v: "validateAction (JObj [(''type'', JStr ''click''), (''timeout'', JNum 0)])
        = Inr (JObj [(''type'', JStr ''click''), (''target'', JStr []), (''value'', JStr []),
            (''description'', JStr ''Execute click action''), (''waitFor'', JNull),
            (''timeout'', JNum 30000)])"
    by (simp add: validateAction_def js_or_def Let_def SUPPORTED_ACTIONS_def)
  show ?thesis using validateAction_shape [OF v] v by simp
qed

text \<open>
  C10 as stated fails: the reply \<^verbatim>\<open>{"type": "click", "target": 5}\<close> is accepted and its
  target stays the number 5.
\<close>

theorem validateAction_strings_counterexample:
  "validateAction (JObj [(''type'', JStr ''click''), (''target'', JNum 5)])
     = Inr (JObj [(''type'', JStr ''click''), (''target'', JNum 5), (''value'', JStr []),
         (''description'', JStr ''Execute click action''), (''waitFor'', JNull),
         (''timeout'', JNum 30000)])
   \<and> \<not> is_string (get_prop (JObj [(''type'', JStr ''click''), (''target'', JNum 5),
         (''value'', JStr []), (''description'', JStr ''Execute click action''),
         (''waitFor'', JNull), (''timeout'', JNum 30000)]) ''target'')"
  by (simp add: validateAction_def js_or_def Let_def SUPPORTED_ACTIONS_def)

section \<open>The pattern fallback\<close>

lemma extractQuotedText_nonempty: "extractQuotedText s = Some b \<Longrightarrow> b \<noteq> []"
  by (induction s) (auto split: if_splits)

lemma url_at_nonempty: "url_at s = Some u \<Longrightarrow> u \<noteq> []"
  by (auto simp: url_at_def split: if_splits)

lemma extractUrl_nonempty: "extractUrl s = Some u \<Longrightarrow> u \<noteq> []"
  by (induction s) (auto split: option.splits dest: url_at_nonempty)

lemma str_truthy_quoted: "str_truthy (extractQuotedText s) \<longleftrightarrow> extractQuotedText s \<noteq> None"
  by (cases "extractQuotedText s") (auto dest: extractQuotedText_nonempty)

lemma str_truthy_url: "str_truthy (extractUrl s) \<longleftrightarrow> extractUrl s \<noteq> None"
  by (cases "extractUrl s") (auto dest: extractUrl_nonempty)

text \<open>
  C4, as the code has it. The rules are tried in the order click, type, navigate: a
  command that contains \<^verbatim>\<open>click\<close> always gives a click action, and a navigate action is
  the result exactly when the command contains no \<^verbatim>\<open>click\<close>, the type rule does not apply
  (no \<^verbatim>\<open>type\<close> or \<^verbatim>\<open>enter\<close>, or no quoted text), a navigation verb is present and a URL is
  found.
\<close>

theorem fallback_click_before_navigate:
  "(str_includes (toLowerCase command) ''click'' \<longrightarrow>
      (\<exists>a. getFallbackAction command = Some a \<and> get_prop a ''type'' = JStr ''click''))
   \<and> ((\<exists>a. getFallbackAction command = Some a \<and> get_prop a ''type'' = JStr ''navigate'') \<longleftrightarrow>
        \<not> str_includes (toLowerCase command) ''click''
        \<and> \<not> ((str_includes (toLowerCase command) ''type''
                \<or> str_includes (toLowerCase command) ''enter'')
              \<and> extractQuotedText command \<noteq> None)
        \<and> (str_includes (toLowerCase command) ''navigate''
             \<or> str_includes (toLowerCase command) ''go to'')
        \<and> extractUrl command \<noteq> None)"
  by (auto simp: getFallbackAction_def Let_def str_truthy_quoted str_truthy_url)

theorem fallback_click_before_navigate_witness:
  "(\<exists>a. getFallbackAction ''Click the link and navigate to https://example.com'' = Some a
        \<and> get_prop a ''type'' = JStr ''click'')
   \<and> (\<exists>a. getFallbackAction ''Navigate to https://example.com'' = Some a
        \<and> get_prop a ''type'' = JStr ''navigate'')"
proof -
  have 1: "str_includes (toLowerCase ''Click the link and navigate to https://example.com'') ''click''"
    by code_simp
  have 2: "\<not> str_includes (toLowerCase ''Navigate to https://example.com'') ''click''
        \<and> \<not> ((str_includes (toLowerCase ''Navigate to https://example.com'') ''type''
                \<or> str_includes (toLowerCase ''Navigate to https://example.com'') ''enter'')
              \<and> extractQuotedText ''Navigate to https://example.com'' \<noteq> None)
        \<and> (str_includes (toLowerCase ''Navigate to https://example.com'') ''navigate''
             \<or> str_includes (toLowerCase ''Navigate to https://example.com'') ''go to'')
        \<and> extractUrl ''Navigate to https://example.com'' \<noteq> None"
    by code_simp
  show ?thesis
    using fallback_click_before_navigate [of "''Click the link and navigate to https://example.com''"]
          fallback_click_before_navigate [of "''Navigate to https://example.com''"] 1 2
    by blast
qed

text \<open>
  C4 as stated fails: the command below contains a navigation verb with a URL and a click
  verb, and the fallback gives a click action.
\<close>

theorem fallback_navigation_priority_counterexample:
  "str_includes (toLowerCase ''Click the link and navigate to https://example.com'') ''navigate''
   \<and> str_includes (toLowerCase ''Click the link and navigate to https://example.com'') ''click''
   \<and> extractUrl ''Click the link and navigate to https://example.com'' = Some ''https://example.com''
   \<and> getFallbackAction ''Click the link and navigate to https://example.com'' \<noteq> None
   \<and> get_prop (the (getFallbackAction ''Click the link and navigate to https://example.com'')) ''type''
       = JStr ''click''
   \<and> get_prop (the (getFallbackAction ''Click the link and navigate to https://example.com'')) ''type''
       \<noteq> JStr ''navigate''"
  by code_simp

subsection \<open>The first quoted string\<close>


lemma quoted_head_Nil [simp]: "\<not> quoted_head [] b"
  by (simp add: quoted_head_def)

lemma first_quoted_Nil [simp]: "\<not> first_quoted [] b"
  by (simp add: first_quoted_def)








section \<open>The actions of the executor\<close>


lemma invoke_world [simp]: "snd (invoke env c w) = w\<lparr>calls := calls w @ [c]\<rparr>"
  by (simp add: invoke_def perform_def split: resp.splits)

lemma invoke_eq:
  "invoke env c w =
     ((case env (calls w) c of Throws e \<Rightarrow> Threw e | _ \<Rightarrow> Ok ()), w\<lparr>calls := calls w @ [c]\<rparr>)"
  by (simp add: invoke_def perform_def split: resp.splits)

lemma invoke_ok: "\<not> throws (env (calls w) c) \<Longrightarrow> invoke env c w = (Ok (), w\<lparr>calls := calls w @ [c]\<rparr>)"
  by (cases "env (calls w) c") (simp_all add: invoke_eq)

lemma invoke_throws:
  "throws (env (calls w) c) \<Longrightarrow> \<exists>e. invoke env c w = (Threw e, w\<lparr>calls := calls w @ [c]\<rparr>)"
  by (cases "env (calls w) c") (simp_all add: invoke_eq)


lemma click_loop_misses:
  assumes "\<forall>k<length pre. throws (env (calls w @ map probe (take k pre)) (probe (pre ! k)))"
  shows "click_loop env action (pre @ rest) w
           = click_loop env action rest (w\<lparr>calls := calls w @ map probe pre\<rparr>)"
  using assms
proof (induction pre arbitrary: w)
  case Nil
  then show ?case by simp
next
  case (Cons p pre)
  from Cons.prems have "throws (env (calls w) (probe p))" by force
  then obtain e where e: "invoke env (probe p) w = (Threw e, w\<lparr>calls := calls w @ [probe p]\<rparr>)"
    using invoke_throws by blast
  have "\<forall>k<length pre. throws (env (calls (w\<lparr>calls := calls w @ [probe p]\<rparr>) @ map probe (take k pre))
           (probe (pre ! k)))"
  proof (intro allI impI)
    fix k assume "k < length pre"
    then have "throws (env (calls w @ map probe (take (Suc k) (p # pre))) (probe ((p # pre) ! Suc k)))"
      using Cons.prems by (metis Suc_less_eq length_Cons)
    then show "throws (env (calls (w\<lparr>calls := calls w @ [probe p]\<rparr>) @ map probe (take k pre))
           (probe (pre ! k)))" by simp
  qed
  from Cons.IH [OF this] e show ?case by simp
qed

lemma type_loop_misses:
  assumes "\<forall>k<length pre. throws (env (calls w @ map probe (take k pre)) (probe (pre ! k)))"
  shows "type_loop env action (pre @ rest) w
           = type_loop env action rest (w\<lparr>calls := calls w @ map probe pre\<rparr>)"
  using assms
proof (induction pre arbitrary: w)
  case Nil
  then show ?case by simp
next
  case (Cons p pre)
  from Cons.prems have "throws (env (calls w) (probe p))" by force
  then obtain e where e: "invoke env (probe p) w = (Threw e, w\<lparr>calls := calls w @ [probe p]\<rparr>)"
    using invoke_throws by blast
  have "\<forall>k<length pre. throws (env (calls (w\<lparr>calls := calls w @ [probe p]\<rparr>) @ map probe (take k pre))
           (probe (pre ! k)))"
  proof (intro allI impI)
    fix k assume "k < length pre"
    then have "throws (env (calls w @ map probe (take (Suc k) (p # pre))) (probe ((p # pre) ! Suc k)))"
      using Cons.prems by (metis Suc_less_eq length_Cons)
    then show "throws (env (calls (w\<lparr>calls := calls w @ [probe p]\<rparr>) @ map probe (take k pre))
           (probe (pre ! k)))" by simp
  qed
  from Cons.IH [OF this] e show ?case by simp
qed

lemma click_loop_calls: "\<exists>extra. snd (click_loop env action cs w) = w\<lparr>calls := calls w @ extra\<rparr>"
proof (induction cs arbitrary: w)
  case Nil
  show ?case by (rule exI [of _ "[]"]) simp
next
  case (Cons c cs)
  let ?w1 = "w\<lparr>calls := calls w @ [probe c]\<rparr>"
  let ?w2 = "?w1\<lparr>calls := calls ?w1 @ [Click (JStr c) (get_prop action ''timeout'')]\<rparr>"
  from Cons.IH [of ?w1] obtain x1 where x1: "snd (click_loop env action cs ?w1) = ?w1\<lparr>calls := calls ?w1 @ x1\<rparr>" by blast
  from Cons.IH [of ?w2] obtain x2 where x2: "snd (click_loop env action cs ?w2) = ?w2\<lparr>calls := calls ?w2 @ x2\<rparr>" by blast
  show ?case
    using x1 x2
    by (auto simp: invoke_eq split: resp.splits)
qed


lemma type_loop_calls: "\<exists>extra. snd (type_loop env action cs w) = w\<lparr>calls := calls w @ extra\<rparr>"
proof (induction cs arbitrary: w)
  case Nil
  show ?case by (rule exI [of _ "[]"]) simp
next
  case (Cons c cs)
  let ?w1 = "w\<lparr>calls := calls w @ [probe c]\<rparr>"
  let ?w2 = "?w1\<lparr>calls := calls ?w1 @ [Fill (JStr c) (get_prop action ''value'')]\<rparr>"
  from Cons.IH [of ?w1] obtain x1 where x1: "snd (type_loop env action cs ?w1) = ?w1\<lparr>calls := calls ?w1 @ x1\<rparr>" by blast
  from Cons.IH [of ?w2] obtain x2 where x2: "snd (type_loop env action cs ?w2) = ?w2\<lparr>calls := calls ?w2 @ x2\<rparr>" by blast
  show ?case
    using x1 x2
    by (auto simp: invoke_eq split: resp.splits)
qed

lemma click_loop_hit:
  assumes "\<not> throws (env (calls w) (probe c))"
  shows "\<exists>r extra. click_loop env action (c # post) w
            = (r, w\<lparr>calls := calls w @ [probe c, Click (JStr c) (get_prop action ''timeout'')] @ extra\<rparr>)
          \<and> (\<not> throws (env (calls w @ [probe c]) (Click (JStr c) (get_prop action ''timeout'')))
               \<longrightarrow> r \<and> extra = [])"
proof -
  let ?w1 = "w\<lparr>calls := calls w @ [probe c]\<rparr>"
  let ?click = "Click (JStr c) (get_prop action ''timeout'')"
  let ?w2 = "?w1\<lparr>calls := calls ?w1 @ [?click]\<rparr>"
  have p: "invoke env (probe c) w = (Ok (), ?w1)" using assms by (rule invoke_ok)
  show ?thesis
  proof (cases "throws (env (calls ?w1) ?click)")
    case True
    then obtain e where e: "invoke env ?click ?w1 = (Threw e, ?w2)"
      using invoke_throws by blast
    obtain extra where x: "snd (click_loop env action post ?w2) = ?w2\<lparr>calls := calls ?w2 @ extra\<rparr>"
      using click_loop_calls by blast
    have "click_loop env action (c # post) w = click_loop env action post ?w2"
      using p e by simp
    then have "click_loop env action (c # post) w
         = (fst (click_loop env action post ?w2), w\<lparr>calls := calls w @ [probe c, ?click] @ extra\<rparr>)"
      using x by (simp add: prod_eq_iff)
    then show ?thesis using True by auto
  next
    case False
    then have "invoke env ?click ?w1 = (Ok (), ?w2)" by (rule invoke_ok)
    then have "click_loop env action (c # post) w = (True, w\<lparr>calls := calls w @ [probe c, ?click] @ []\<rparr>)"
      using p by simp
    then show ?thesis by blast
  qed
qed

lemma type_loop_hit:
  assumes "\<not> throws (env (calls w) (probe c))"
  shows "\<exists>r extra. type_loop env action (c # post) w
            = (r, w\<lparr>calls := calls w @ [probe c, Fill (JStr c) (get_prop action ''value'')] @ extra\<rparr>)
          \<and> (\<not> throws (env (calls w @ [probe c]) (Fill (JStr c) (get_prop action ''value'')))
               \<longrightarrow> r \<and> extra = [])"
proof -
  let ?w1 = "w\<lparr>calls := calls w @ [probe c]\<rparr>"
  let ?fill = "Fill (JStr c) (get_prop action ''value'')"
  let ?w2 = "?w1\<lparr>calls := calls ?w1 @ [?fill]\<rparr>"
  have p: "invoke env (probe c) w = (Ok (), ?w1)" using assms by (rule invoke_ok)
  show ?thesis
  proof (cases "throws (env (calls ?w1) ?fill)")
    case True
    then obtain e where e: "invoke env ?fill ?w1 = (Threw e, ?w2)"
      using invoke_throws by blast
    obtain extra where x: "snd (type_loop env action post ?w2) = ?w2\<lparr>calls := calls ?w2 @ extra\<rparr>"
      using type_loop_calls by blast
    have "type_loop env action (c # post) w = type_loop env action post ?w2"
      using p e by simp
    then have "type_loop env action (c # post) w
         = (fst (type_loop env action post ?w2), w\<lparr>calls := calls w @ [probe c, ?fill] @ extra\<rparr>)"
      using x by (simp add: prod_eq_iff)
    then show ?thesis using True by auto
  next
    case False
    then have "invoke env ?fill ?w1 = (Ok (), ?w2)" by (rule invoke_ok)
    then have "type_loop env action (c # post) w = (True, w\<lparr>calls := calls w @ [probe c, ?fill] @ []\<rparr>)"
      using p by simp
    then show ?thesis by blast
  qed
qed

lemma prefix_trim_tail: "prefix (rev (dropWhile P (rev t))) t"
proof -
  have "t = rev (takeWhile P (rev t) @ dropWhile P (rev t))" by simp
  then have "t = rev (dropWhile P (rev t)) @ rev (takeWhile P (rev t))" by (simp only: rev_append)
  then show ?thesis by (metis prefixI)
qed

lemma sublist_trim: "sublist (trim s) s"
proof -
  have "sublist (trim s) (dropWhile is_space s)"
    unfolding trim_def by (rule prefix_imp_sublist [OF prefix_trim_tail])
  moreover have "sublist (dropWhile is_space s) s"
    by (rule suffix_imp_sublist [OF suffix_dropWhile])
  ultimately show ?thesis by (rule sublist_order.order_trans)
qed

lemma split_comma_pieces:
  "split_comma s = p # ps \<Longrightarrow> prefix p s \<and> (\<forall>q \<in> set ps. sublist q s)"
proof (induction s arbitrary: p ps)
  case Nil
  then show ?case by simp
next
  case (Cons c cs)
  show ?case
  proof (cases "c = CHR '',''")
    case True
    with Cons.prems have p: "p = []" and ps: "ps = split_comma cs" by auto
    have "\<forall>q \<in> set (split_comma cs). sublist q cs"
    proof (cases "split_comma cs")
      case Nil
      then show ?thesis by simp
    next
      case (Cons a as)
      from Cons.IH [OF this] Cons show ?thesis by (auto intro: prefix_imp_sublist)
    qed
    then show ?thesis using p ps by (auto intro: sublist_Cons_right [THEN iffD2])
  next
    case False
    show ?thesis
    proof (cases "split_comma cs")
      case Nil
      with False Cons.prems show ?thesis by auto
    next
      case (Cons a as)
      with False Cons.prems have p: "p = c # a" and ps: "ps = as" by auto
      from Cons.IH [OF Cons] show ?thesis
        using p ps by (auto intro: sublist_Cons_right [THEN iffD2])
    qed
  qed
qed

lemma candidates_in_target:
  assumes "c \<in> set (map trim (split_comma target))"
  shows "sublist c target"
proof -
  from assms obtain q where q: "q \<in> set (split_comma target)" and c: "c = trim q" by auto
  obtain p ps where s: "split_comma target = p # ps"
    using q by (cases "split_comma target") auto
  from split_comma_pieces [OF s] q s have "sublist q target"
    by (auto intro: prefix_imp_sublist)
  with sublist_trim [of q] c show ?thesis by (metis sublist_order.order_trans)
qed


text \<open>
  C8. The target of a click or type action is split at the commas into its candidates.
  The candidates are probed in order, each with an existence time-out of 5000 ms. As long
  as the probes throw, nothing else is called and no error is recorded; on the first
  candidate whose probe resolves the action (the click with the time-out of the action,
  or the fill with its value) is performed right after the probe, and when that call
  resolves the function returns without error and calls nothing more. When no candidate
  resolves, the function throws the message that ends with the target, of which every
  candidate is a part.
\<close>

theorem selector_fallback:
  assumes "get_prop action ''target'' = JStr target"
    and "map trim (split_comma target) = pre @ rest"
    and "\<forall>k<length pre. throws (env (calls w @ map probe (take k pre)) (probe (pre ! k)))"
  shows "(\<forall>c \<in> set (pre @ rest). sublist c target)
    \<and> (rest = [] \<longrightarrow>
          executeClick env action w
            = (Threw (''Could not find clickable element with any of the selectors: '' @ target),
               w\<lparr>calls := calls w @ map probe pre\<rparr>)
        \<and> executeType env action w
            = (Threw (''Could not find input element with any of the selectors: '' @ target),
               w\<lparr>calls := calls w @ map probe pre\<rparr>))
    \<and> (\<forall>c post. rest = c # post \<and> \<not> throws (env (calls w @ map probe pre) (probe c)) \<longrightarrow>
          (\<exists>r extra. executeClick env action w
               = (r, w\<lparr>calls := calls w @ map probe pre
                        @ [probe c, Click (JStr c) (get_prop action ''timeout'')] @ extra\<rparr>)
             \<and> (\<not> throws (env (calls w @ map probe pre @ [probe c])
                              (Click (JStr c) (get_prop action ''timeout'')))
                  \<longrightarrow> r = Ok () \<and> extra = []))
        \<and> (\<exists>r extra. executeType env action w
               = (r, w\<lparr>calls := calls w @ map probe pre
                        @ [probe c, Fill (JStr c) (get_prop action ''value'')] @ extra\<rparr>)
             \<and> (\<not> throws (env (calls w @ map probe pre @ [probe c])
                              (Fill (JStr c) (get_prop action ''value'')))
                  \<longrightarrow> r = Ok () \<and> extra = [])))"
proof (intro conjI allI impI ballI)
  fix c assume "c \<in> set (pre @ rest)"
  then show "sublist c target"
    using candidates_in_target [of c target] assms(2) by simp
next
  assume "rest = []"
  then show "executeClick env action w
            = (Threw (''Could not find clickable element with any of the selectors: '' @ target),
               w\<lparr>calls := calls w @ map probe pre\<rparr>)"
    using assms(1,2) click_loop_misses [OF assms(3), of action "[]"]
    by (simp add: executeClick_def)
next
  assume "rest = []"
  then show "executeType env action w
            = (Threw (''Could not find input element with any of the selectors: '' @ target),
               w\<lparr>calls := calls w @ map probe pre\<rparr>)"
    using assms(1,2) type_loop_misses [OF assms(3), of action "[]"]
    by (simp add: executeType_def)
next
  fix c post
  assume a: "rest = c # post \<and> \<not> throws (env (calls w @ map probe pre) (probe c))"
  let ?w = "w\<lparr>calls := calls w @ map probe pre\<rparr>"
  let ?click = "Click (JStr c) (get_prop action ''timeout'')"
  from a have "\<not> throws (env (calls ?w) (probe c))" by simp
  with click_loop_hit [where env = env and w = "?w" and c = c and action = action and post = post]
  obtain r extra where r: "click_loop env action (c # post) ?w
            = (r, ?w\<lparr>calls := calls ?w @ [probe c, ?click] @ extra\<rparr>)"
     and ok: "\<not> throws (env (calls ?w @ [probe c]) ?click) \<longrightarrow> r \<and> extra = []"
    by blast
  have loop: "click_loop env action (pre @ rest) w
      = (r, w\<lparr>calls := calls w @ map probe pre @ [probe c, ?click] @ extra\<rparr>)"
    using click_loop_misses [OF assms(3), of action rest] a r by simp
  let ?res = "if r then Ok ()
              else Threw (''Could not find clickable element with any of the selectors: '' @ target)"
  have "executeClick env action w
          = (?res, w\<lparr>calls := calls w @ map probe pre @ [probe c, ?click] @ extra\<rparr>)"
    using assms(1,2) loop by (simp add: executeClick_def)
  moreover have "\<not> throws (env (calls w @ map probe pre @ [probe c]) ?click)
                  \<longrightarrow> ?res = Ok () \<and> extra = []"
    using ok by simp
  ultimately show "\<exists>r extra. executeClick env action w
               = (r, w\<lparr>calls := calls w @ map probe pre @ [probe c, ?click] @ extra\<rparr>)
             \<and> (\<not> throws (env (calls w @ map probe pre @ [probe c]) ?click)
                  \<longrightarrow> r = Ok () \<and> extra = [])"
    by blast
next
  fix c post
  assume a: "rest = c # post \<and> \<not> throws (env (calls w @ map probe pre) (probe c))"
  let ?w = "w\<lparr>calls := calls w @ map probe pre\<rparr>"
  let ?fill = "Fill (JStr c) (get_prop action ''value'')"
  from a have "\<not> throws (env (calls ?w) (probe c))" by simp
  with type_loop_hit [where env = env and w = "?w" and c = c and action = action and post = post]
  obtain r extra where r: "type_loop env action (c # post) ?w
            = (r, ?w\<lparr>calls := calls ?w @ [probe c, ?fill] @ extra\<rparr>)"
     and ok: "\<not> throws (env (calls ?w @ [probe c]) ?fill) \<longrightarrow> r \<and> extra = []"
    by blast
  have loop: "type_loop env action (pre @ rest) w
      = (r, w\<lparr>calls := calls w @ map probe pre @ [probe c, ?fill] @ extra\<rparr>)"
    using type_loop_misses [OF assms(3), of action rest] a r by simp
  let ?res = "if r then Ok ()
              else Threw (''Could not find input element with any of the selectors: '' @ target)"
  have "executeType env action w
          = (?res, w\<lparr>calls := calls w @ map probe pre @ [probe c, ?fill] @ extra\<rparr>)"
    using assms(1,2) loop by (simp add: executeType_def)
  moreover have "\<not> throws (env (calls w @ map probe pre @ [probe c]) ?fill)
                  \<longrightarrow> ?res = Ok () \<and> extra = []"
    using ok by simp
  ultimately show "\<exists>r extra. executeType env action w
               = (r, w\<lparr>calls := calls w @ map probe pre @ [probe c, ?fill] @ extra\<rparr>)
             \<and> (\<not> throws (env (calls w @ map probe pre @ [probe c]) ?fill)
                  \<longrightarrow> r = Ok () \<and> extra = [])"
    by blast
qed

theorem selector_fallback_witness:
  "executeClick example_page
       (JObj [(''type'', JStr ''click''), (''target'', JStr ''.a, #b, text=Foo''),
              (''timeout'', JNum 30000)]) empty_world
     = (Ok (), empty_world\<lparr>calls :=
          [probe ''.a'', probe ''#b'', Click (JStr ''#b'') (JNum 30000)]\<rparr>)
   \<and> executeType example_page
       (JObj [(''type'', JStr ''type''), (''target'', JStr ''.a, #b, text=Foo''),
              (''value'', JStr ''hello'')]) empty_world
     = (Ok (), empty_world\<lparr>calls :=
          [probe ''.a'', probe ''#b'', Fill (JStr ''#b'') (JStr ''hello'')]\<rparr>)
   \<and> executeClick example_page
       (JObj [(''type'', JStr ''click''), (''target'', JStr ''.a, text=Foo'')]) empty_world
     = (Threw ''Could not find clickable element with any of the selectors: .a, text=Foo'',
        empty_world\<lparr>calls := [probe ''.a'', probe ''text=Foo'']\<rparr>)
   \<and> sublist ''text=Foo'' ''.a, text=Foo''"
proof -
  let ?click = "JObj [(''type'', JStr ''click''), (''target'', JStr ''.a, #b, text=Foo''),
              (''timeout'', JNum 30000)]"
  let ?type = "JObj [(''type'', JStr ''type''), (''target'', JStr ''.a, #b, text=Foo''),
              (''value'', JStr ''hello'')]"
  let ?none = "JObj [(''type'', JStr ''click''), (''target'', JStr ''.a, text=Foo'')]"
  have s1: "map trim (split_comma ''.a, #b, text=Foo'') = [''.a''] @ [''#b'', ''text=Foo'']"
    by code_simp
  have s2: "map trim (split_comma ''.a, text=Foo'') = [''.a'', ''text=Foo''] @ []"
    by code_simp
  have m1: "\<forall>k<length [''.a''].
      throws (example_page (calls empty_world @ map probe (take k [''.a''])) (probe ([''.a''] ! k)))"
    by (simp add: example_page_def)
  have m2: "\<forall>k<length [''.a'', ''text=Foo''].
      throws (example_page (calls empty_world @ map probe (take k [''.a'', ''text=Foo'']))
                (probe ([''.a'', ''text=Foo''] ! k)))"
    by (simp add: example_page_def less_Suc_eq)
  have h: "\<not> throws (example_page h (probe ''#b''))" "\<not> throws (example_page h (Click a b))"
       "\<not> throws (example_page h (Fill a b))" for h a b
    by (simp_all add: example_page_def)
  have c: "calls empty_world = []" by (simp add: empty_world_def)
  from selector_fallback [where action = ?click and target = "''.a, #b, text=Foo''"
         and pre = "[''.a'']" and rest = "[''#b'', ''text=Foo'']" and w = empty_world
         and env = example_page, OF _ s1 m1] h
  have 1: "executeClick example_page ?click empty_world
     = (Ok (), empty_world\<lparr>calls := [probe ''.a'', probe ''#b'', Click (JStr ''#b'') (JNum 30000)]\<rparr>)"
    by (auto simp: c)
  from selector_fallback [where action = ?type and target = "''.a, #b, text=Foo''"
         and pre = "[''.a'']" and rest = "[''#b'', ''text=Foo'']" and w = empty_world
         and env = example_page, OF _ s1 m1] h
  have 2: "executeType example_page ?type empty_world
     = (Ok (), empty_world\<lparr>calls := [probe ''.a'', probe ''#b'', Fill (JStr ''#b'') (JStr ''hello'')]\<rparr>)"
    by (auto simp: c)
  from selector_fallback [where action = ?none and target = "''.a, text=Foo''"
         and pre = "[''.a'', ''text=Foo'']" and rest = "[]" and w = empty_world
         and env = example_page, OF _ s2 m2]
  have 3: "executeClick example_page ?none empty_world
     = (Threw ''Could not find clickable element with any of the selectors: .a, text=Foo'',
        empty_world\<lparr>calls := [probe ''.a'', probe ''text=Foo'']\<rparr>)
     \<and> sublist ''text=Foo'' ''.a, text=Foo''"
    by (auto simp: c)
  from 1 2 3 show ?thesis by simp
qed

section \<open>The execution of a step\<close>

lemma captures_append [simp]:
  "captures (w\<lparr>calls := calls w @ cs\<rparr>) = captures w + length (filter is_screenshot cs)"
  by (simp add: captures_def)

lemma captures_store [simp]: "captures (w\<lparr>store := d\<rparr>) = captures w"
  by (simp add: captures_def)

lemma perform_world [simp]: "snd (perform env c w) = w\<lparr>calls := calls w @ [c]\<rparr>"
  by (simp add: perform_def)

lemma Date_now_world [simp]: "snd (Date_now env w) = w\<lparr>calls := calls w @ [DateNow]\<rparr>"
  by (simp add: Date_now_def perform_def split: resp.splits jsval.splits)

lemma toISOString_world [simp]: "snd (toISOString env w) = w\<lparr>calls := calls w @ [DateIso]\<rparr>"
  by (simp add: toISOString_def perform_def split: resp.splits jsval.splits)

lemma uuidv4_world [simp]: "snd (uuidv4 env w) = w\<lparr>calls := calls w @ [Uuid]\<rparr>"
  by (simp add: uuidv4_def perform_def split: resp.splits jsval.splits)

lemma takeScreenshot_eq:
  "\<exists>p path. takeScreenshot env sessionId stepId kind w
      = (Ok p, w\<lparr>calls := calls w @ [DateIso, Screenshot path]\<rparr>)
      \<and> (truthy p \<longleftrightarrow> \<not> throws (env (calls w @ [DateIso]) (Screenshot path)))"
proof -
  obtain stamp where s: "toISOString env w = (stamp, w\<lparr>calls := calls w @ [DateIso]\<rparr>)"
    using toISOString_world [of env w] by (cases "toISOString env w") simp
  show ?thesis
    unfolding takeScreenshot_def s
    by (cases "env (calls w @ [DateIso]) (Screenshot (''screenshots/'' @ sessionId @ ''_'' @ stepId @ ''_'' @ kind @ ''_'' @ map (\<lambda>c. if c = CHR '':'' \<or> c = CHR ''.'' then CHR ''-'' else c) stamp @ ''.png''))")
       (auto simp: invoke_eq Let_def)
qed

lemma takeScreenshot_ok:
  "\<exists>p w'. takeScreenshot env sessionId stepId kind w = (Ok p, w')
      \<and> store w' = store w \<and> captures w' = captures w + 1"
  using takeScreenshot_eq [of env sessionId stepId kind w] by auto

lemma click_loop_keeps:
  "store (snd (click_loop env action cs w)) = store w
   \<and> captures (snd (click_loop env action cs w)) = captures w"
  by (induction cs arbitrary: w) (auto simp: invoke_eq split: resp.splits)

lemma type_loop_keeps:
  "store (snd (type_loop env action cs w)) = store w
   \<and> captures (snd (type_loop env action cs w)) = captures w"
  by (induction cs arbitrary: w) (auto simp: invoke_eq split: resp.splits)

lemma executeNavigate_keeps [simp]:
  "store (snd (executeNavigate env action w)) = store w"
  "captures (snd (executeNavigate env action w)) = captures w"
  by (simp_all add: executeNavigate_def Let_def)

lemma executeClick_keeps [simp]:
  "store (snd (executeClick env action w)) = store w"
  "captures (snd (executeClick env action w)) = captures w"
proof -
  have "snd (executeClick env action w) =
          (case get_prop action ''target'' of
             JStr target \<Rightarrow> snd (click_loop env action (map trim (split_comma target)) w)
           | _ \<Rightarrow> w)"
    by (auto simp: executeClick_def split: jsval.splits prod.splits bool.splits)
  then show "store (snd (executeClick env action w)) = store w"
    "captures (snd (executeClick env action w)) = captures w"
    by (simp_all add: click_loop_keeps split: jsval.splits)
qed

lemma executeType_keeps [simp]:
  "store (snd (executeType env action w)) = store w"
  "captures (snd (executeType env action w)) = captures w"
proof -
  have "snd (executeType env action w) =
          (case get_prop action ''target'' of
             JStr target \<Rightarrow> snd (type_loop env action (map trim (split_comma target)) w)
           | _ \<Rightarrow> w)"
    by (auto simp: executeType_def split: jsval.splits prod.splits bool.splits)
  then show "store (snd (executeType env action w)) = store w"
    "captures (snd (executeType env action w)) = captures w"
    by (simp_all add: type_loop_keeps split: jsval.splits)
qed

lemma executeWait_keeps [simp]:
  "store (snd (executeWait env action w)) = store w"
  "captures (snd (executeWait env action w)) = captures w"
  by (simp_all add: executeWait_def Let_def)

lemma executeVerify_world:
  "snd (executeVerify env action w) \<in>
     {w\<lparr>calls := calls w @ [Title]\<rparr>,
      w\<lparr>calls := calls w @ [IsVisible (get_prop action ''target'')]\<rparr>,
      w\<lparr>calls := calls w @ [IsVisible (get_prop action ''target''),
                                TextContent (get_prop action ''target'')]\<rparr>}"
proof (cases "get_prop action ''target'' = JStr ''title''")
  case True
  have "snd (executeVerify env action w) = w\<lparr>calls := calls w @ [Title]\<rparr>"
  proof (cases "env (calls w) Title")
    case (Returns v)
    then show ?thesis using True
      by (cases v) (simp_all add: executeVerify_def perform_def Let_def)
  qed (simp_all add: executeVerify_def perform_def True)
  then show ?thesis by simp
next
  case False
  let ?vis = "IsVisible (get_prop action ''target'')"
  let ?txt = "TextContent (get_prop action ''target'')"
  let ?w1 = "w\<lparr>calls := calls w @ [?vis]\<rparr>"
  have "snd (executeVerify env action w) = ?w1
      \<or> snd (executeVerify env action w) = w\<lparr>calls := calls w @ [?vis, ?txt]\<rparr>"
  proof (cases "env (calls w) ?vis")
    case (Returns isVisible)
    show ?thesis
    proof (cases "truthy isVisible \<and> truthy (get_prop action ''value'')")
      case True
      show ?thesis
      proof (cases "env (calls ?w1) ?txt")
        case r: (Returns v)
        then show ?thesis using False Returns True
          by (cases v) (simp_all add: executeVerify_def perform_def Let_def)
      qed (use False Returns True in \<open>simp_all add: executeVerify_def perform_def\<close>)
    next
      case no: False
      then show ?thesis using False Returns
        by (auto simp: executeVerify_def perform_def)
    qed
  qed (simp_all add: executeVerify_def perform_def False)
  then show ?thesis by blast
qed

lemma executeVerify_keeps [simp]:
  "store (snd (executeVerify env action w)) = store w"
  "captures (snd (executeVerify env action w)) = captures w"
  using executeVerify_world [of env action w] by auto

lemma executeScroll_keeps [simp]:
  "store (snd (executeScroll env action w)) = store w"
  "captures (snd (executeScroll env action w)) = captures w"
  by (simp_all add: executeScroll_def)

lemma executeHover_keeps [simp]:
  "store (snd (executeHover env action w)) = store w"
  "captures (snd (executeHover env action w)) = captures w"
  by (simp_all add: executeHover_def)

lemma executeSelect_keeps [simp]:
  "store (snd (executeSelect env action w)) = store w"
  "captures (snd (executeSelect env action w)) = captures w"
  by (simp_all add: executeSelect_def)

lemma snd_no_result [simp]: "snd (no_result rw) = snd rw"
  by (cases rw) (auto simp: no_result_def split: res.splits)

lemma no_result_Ok: "no_result rw = (Ok (actual, path), w') \<Longrightarrow> path = JNull"
  by (cases rw) (auto simp: no_result_def split: res.splits)

lemma run_action_world:
  "snd (run_action env action sessionId stepId w) =
     (if is_nullish action then w
      else if get_prop action ''type'' = JStr ''navigate'' then snd (executeNavigate env action w)
      else if get_prop action ''type'' = JStr ''click'' then snd (executeClick env action w)
      else if get_prop action ''type'' = JStr ''type'' then snd (executeType env action w)
      else if get_prop action ''type'' = JStr ''wait'' then snd (executeWait env action w)
      else if get_prop action ''type'' = JStr ''verify'' then snd (executeVerify env action w)
      else if get_prop action ''type'' = JStr ''scroll'' then snd (executeScroll env action w)
      else if get_prop action ''type'' = JStr ''hover'' then snd (executeHover env action w)
      else if get_prop action ''type'' = JStr ''select'' then snd (executeSelect env action w)
      else if get_prop action ''type'' = JStr ''screenshot''
        then snd (takeScreenshot env sessionId stepId ''step'' w)
      else w)"
proof -
  obtain rv wv where v: "executeVerify env action w = (rv, wv)" by fastforce
  obtain rs ws where s: "takeScreenshot env sessionId stepId ''step'' w = (rs, ws)" by fastforce
  show ?thesis
    unfolding run_action_def by (simp add: v s split: res.splits)
qed

lemma run_action_store [simp]:
  "store (snd (run_action env action sessionId stepId w)) = store w"
  using takeScreenshot_ok [of env sessionId stepId "''step''" w]
  by (auto simp: run_action_world)

lemma run_action_other:
  assumes "is_nullish action \<or> get_prop action ''type'' \<noteq> JStr ''screenshot''"
  shows "captures (snd (run_action env action sessionId stepId w)) = captures w"
    and "run_action env action sessionId stepId w = (Ok (actual, path), w') \<Longrightarrow> path = JNull"
proof -
  show "captures (snd (run_action env action sessionId stepId w)) = captures w"
    using assms by (auto simp: run_action_world)
  assume r: "run_action env action sessionId stepId w = (Ok (actual, path), w')"
  obtain rv wv where v: "executeVerify env action w = (rv, wv)" by fastforce
  show "path = JNull"
    using r assms unfolding run_action_def v
    by (auto split: if_splits res.splits dest: no_result_Ok)
qed

lemma run_action_screenshot:
  assumes "\<not> is_nullish action" and "get_prop action ''type'' = JStr ''screenshot''"
  shows "\<exists>p path. run_action env action sessionId stepId w
            = (Ok (JNull, p), w\<lparr>calls := calls w @ [DateIso, Screenshot path]\<rparr>)
          \<and> (truthy p \<longleftrightarrow> \<not> throws (env (calls w @ [DateIso]) (Screenshot path)))"
  using assms takeScreenshot_eq [of env sessionId stepId "''step''" w]
  by (auto simp: run_action_def)

lemma db_run_world:
  "calls (snd (db_run env op w)) = calls w @ [Db op]"
  "captures (snd (db_run env op w)) = captures w"
  by (auto simp: db_run_def perform_def captures_def split: resp.splits sum.splits)

lemma db_run_cases:
  assumes "db_run env op w = (r, w')"
  shows "(\<exists>e. r = Threw e \<and> w' = w\<lparr>calls := calls w @ [Db op]\<rparr>)
       \<or> (\<exists>d. r = Ok () \<and> db_apply op (store w) = Inr d
              \<and> w' = w\<lparr>calls := calls w @ [Db op], store := d\<rparr>)"
  using assms
  by (auto simp: db_run_def perform_def split: resp.splits sum.splits)

lemma step_try_captures:
  assumes "step_try env step sessionId w = (r, w')"
  shows "(\<forall>e. r = Threw e \<longrightarrow> captures w' = captures w
            \<and> \<not> action_succeeds env step sessionId w)
       \<and> (\<forall>out. r = Ok out \<longrightarrow> action_succeeds env step sessionId w
            \<and> (captures w' = captures w + 1 \<or> captures w' = captures w + 2)
            \<and> (\<not> explicit_screenshot step \<longrightarrow> captures w' = captures w + 1)
            \<and> ((\<forall>h path. \<not> throws (env h (Screenshot path))) \<longrightarrow> captures w' = captures w + 1)
            \<and> (explicit_screenshot step \<and> (\<forall>h path. throws (env h (Screenshot path)))
                 \<longrightarrow> captures w' = captures w + 2))"
proof (cases "translated_action step")
  case NotJson
  then show ?thesis using assms by (auto simp: step_try_def action_succeeds_def)
next
  case (JsonText action)
  obtain rd w1 where d: "db_run env (UpdateStepStatus ''running'' (step_id step)) w = (rd, w1)"
    by fastforce
  have c1: "captures w1 = captures w"
    using db_run_world(2) [of env "UpdateStepStatus ''running'' (step_id step)" w] d by simp
  show ?thesis
  proof (cases rd)
    case (Threw e)
    then show ?thesis
      using assms JsonText d c1 by (auto simp: step_try_def action_succeeds_def)
  next
    case (Ok u)
    obtain ra w2 where a: "run_action env action sessionId (step_id step) w1 = (ra, w2)"
      by fastforce
    show ?thesis
    proof (cases ra)
      case (Threw e)
      have "captures w2 = captures w1"
      proof (cases "is_nullish action \<or> get_prop action ''type'' \<noteq> JStr ''screenshot''")
        case True
        from run_action_other(1) [OF this, of env sessionId "step_id step" w1] a
        show ?thesis by simp
      next
        case False
        with run_action_screenshot [of action env sessionId "step_id step" w1] a Threw
        show ?thesis by auto
      qed
      then show ?thesis
        using assms JsonText d Ok a Threw c1 by (auto simp: step_try_def action_succeeds_def)
    next
      case ok: (Ok out)
      obtain actual path where out: "out = (actual, path)" by (cases out)
      obtain p w3 where s: "takeScreenshot env sessionId (step_id step) ''step'' w2 = (Ok p, w3)"
          and c3: "captures w3 = captures w2 + 1"
        using takeScreenshot_ok [of env sessionId "step_id step" "''step''" w2] by blast
      have succ: "action_succeeds env step sessionId w"
        using JsonText d Ok a ok by (simp add: action_succeeds_def)
      show ?thesis
      proof (cases "is_nullish action \<or> get_prop action ''type'' \<noteq> JStr ''screenshot''")
        case True
        from run_action_other [OF this, of env sessionId "step_id step" w1] a ok out
        have "captures w2 = captures w1" "path = JNull" by auto
        moreover have "\<not> explicit_screenshot step"
          using True JsonText by (auto simp: explicit_screenshot_def)
        ultimately show ?thesis
          using assms JsonText d Ok a ok out s c3 c1 succ
          by (auto simp: step_try_def)
      next
        case False
        then have ex: "explicit_screenshot step"
          using JsonText by (simp add: explicit_screenshot_def)
        from False run_action_screenshot [of action env sessionId "step_id step" w1] a ok out
        obtain shot where w2: "w2 = w1\<lparr>calls := calls w1 @ [DateIso, Screenshot shot]\<rparr>"
          and p: "truthy path \<longleftrightarrow> \<not> throws (env (calls w1 @ [DateIso]) (Screenshot shot))"
          by auto
        have c2: "captures w2 = captures w1 + 1" using w2 by simp
        show ?thesis
        proof (cases "truthy path")
          case True
          then have "r = Ok out \<and> w' = w2"
            using assms JsonText d Ok a ok out by (simp add: step_try_def)
          then show ?thesis using c1 c2 succ True p by auto
        next
          case False
          then have "r = Ok (actual, p) \<and> w' = w3"
            using assms JsonText d Ok a ok out s by (simp add: step_try_def)
          then show ?thesis using c1 c2 c3 succ False p ex by auto
        qed
      qed
    qed
  qed
qed

lemma step_attempt_facts:
  assumes "step_attempt env step sessionId w = ((status, err, actual, path), w')"
  shows "(status = ''passed'' \<longleftrightarrow> action_succeeds env step sessionId w)
       \<and> (status = ''passed'' \<or> status = ''failed'')
       \<and> (captures w' = captures w + 1 \<or> captures w' = captures w + 2)
       \<and> (\<not> explicit_screenshot step \<longrightarrow> captures w' = captures w + 1)
       \<and> ((\<forall>h path. \<not> throws (env h (Screenshot path))) \<longrightarrow> captures w' = captures w + 1)
       \<and> (explicit_screenshot step \<and> (\<forall>h path. throws (env h (Screenshot path)))
             \<and> action_succeeds env step sessionId w \<longrightarrow> captures w' = captures w + 2)"
proof -
  obtain r w1 where t: "step_try env step sessionId w = (r, w1)" by fastforce
  note f = step_try_captures [OF t]
  show ?thesis
  proof (cases r)
    case (Threw e)
    obtain p w2 where s: "takeScreenshot env sessionId (step_id step) ''error'' w1 = (Ok p, w2)"
        and c2: "captures w2 = captures w1 + 1"
      using takeScreenshot_ok [of env sessionId "step_id step" "''error''" w1] by blast
    have "status = ''failed'' \<and> w' = w2"
      using assms t Threw s by (simp add: step_attempt_def)
    then show ?thesis using f Threw c2 by auto
  next
    case (Ok out)
    obtain a b where out: "out = (a, b)" by (cases out)
    have "status = ''passed'' \<and> w' = w1"
      using assms t Ok out by (simp add: step_attempt_def)
    then show ?thesis using f Ok by auto
  qed
qed

lemma executeStep_unfold:
  assumes "Date_now env w = (t0, w0)"
    and "step_attempt env step sessionId w0 = ((status, err, actual, path), w2)"
    and "Date_now env w2 = (t1, w3)"
    and "db_run env (UpdateStepResult status actual err (JNum (t1 - t0)) path (step_id step)) w3
           = (rd, w4)"
  shows "executeStep env step sessionId w =
           ((case rd of
               Threw e \<Rightarrow> Threw e
             | Ok u \<Rightarrow>
                 Ok (JObj [(''stepId'', JStr (step_id step)),
                           (''status'', JStr status),
                           (''error'', err),
                           (''actualResult'', actual),
                           (''executionTime'', JNum (t1 - t0))])), w4)"
  using assms by (simp add: executeStep_def split: res.splits)

text \<open>
  C9, as the code has it. \<^verbatim>\<open>takeScreenshot\<close> never throws. Every executed step attempts
  at least one capture and at most two. A step whose action is not an explicit screenshot
  attempts exactly one, after the action, whether it passes or fails. For an explicit
  screenshot action no further capture follows a capture that succeeded (one capture in
  all when captures succeed); a second one is attempted only when the capture of the
  action failed. The status of the step is \<^verbatim>\<open>passed\<close> exactly when parsing the action,
  marking the step as running and the action itself did not throw: the outcome of a
  capture does not enter.
\<close>

theorem step_captures:
  assumes "executeStep env step sessionId w = (r, w')"
  shows "(\<exists>p w1. takeScreenshot env sessionId (step_id step) kind w = (Ok p, w1)
            \<and> captures w1 = captures w + 1)
    \<and> (captures w' = captures w + 1 \<or> captures w' = captures w + 2)
    \<and> (\<not> explicit_screenshot step \<longrightarrow> captures w' = captures w + 1)
    \<and> ((\<forall>h path. \<not> throws (env h (Screenshot path))) \<longrightarrow> captures w' = captures w + 1)
    \<and> (explicit_screenshot step \<and> (\<forall>h path. throws (env h (Screenshot path)))
          \<and> action_succeeds env step sessionId (snd (Date_now env w))
          \<longrightarrow> captures w' = captures w + 2)
    \<and> (\<forall>result. r = Ok result \<longrightarrow>
          (get_prop result ''status'' = JStr ''passed''
             \<longleftrightarrow> action_succeeds env step sessionId (snd (Date_now env w))))"
proof -
  obtain t0 w0 where n0: "Date_now env w = (t0, w0)" by fastforce
  obtain status err actual path w2
    where a: "step_attempt env step sessionId w0 = ((status, err, actual, path), w2)"
    by (metis prod_cases4 surj_pair)
  obtain t1 w3 where n1: "Date_now env w2 = (t1, w3)" by fastforce
  let ?op = "UpdateStepResult status actual err (JNum (t1 - t0)) path (step_id step)"
  obtain rd w4 where d: "db_run env ?op w3 = (rd, w4)" by fastforce
  note f = step_attempt_facts [OF a]
  have w0: "w0 = snd (Date_now env w)" using n0 by simp
  have w3: "w3 = snd (Date_now env w2)" using n1 by simp
  have c0: "captures w0 = captures w" unfolding w0 by simp
  have c3: "captures w3 = captures w2" unfolding w3 by simp
  have c4: "captures w4 = captures w3"
    using db_run_world(2) [of env ?op w3] d by simp
  have w': "w' = w4" and r: "r = (case rd of Threw e \<Rightarrow> Threw e | Ok u \<Rightarrow>
       Ok (JObj [(''stepId'', JStr (step_id step)), (''status'', JStr status), (''error'', err),
                 (''actualResult'', actual), (''executionTime'', JNum (t1 - t0))]))"
    using assms executeStep_unfold [OF n0 a n1 d] by simp_all
  have st: "\<forall>result. r = Ok result \<longrightarrow> get_prop result ''status'' = JStr status"
    using r by (auto split: res.splits)
  have "captures w' = captures w2" using w' c4 c3 by simp
  then show ?thesis
    using takeScreenshot_ok [of env sessionId "step_id step" kind w] f c0 st
    unfolding w0 [symmetric]
    by auto
qed




section \<open>Steps run on the sample page\<close>

lemmas run_defs =
  router_post_execute_def db_get_session_def db_all_steps_def db_run_def perform_def invoke_def
  executeTest_def finally_close_def executeStep_def Date_now_def toISOString_def uuidv4_def
  step_attempt_def step_try_def run_action_def no_result_def
  executeNavigate_def executeClick_def executeType_def executeWait_def executeVerify_def
  executeScroll_def executeHover_def executeSelect_def takeScreenshot_def
  JSON_stringify_def js_or_def trim_def is_space_def count_status_def captures_def
  example_page_def capture_fails_def empty_world_def stored_step_def
  navigate_unreachable_def click_candidates_def verify_title_def screenshot_action_def
  explicit_screenshot_def action_succeeds_def Let_def


theorem step_captures_witness:
  "captures (snd (executeStep example_page
       (stored_step ''c'' ''s1'' 3 ''Check the title'' (verify_title ''Example''))
       ''s1'' empty_world)) = 1
   \<and> captures (snd (executeStep example_page
       (stored_step ''d'' ''s1'' 4 ''Take a screenshot'' screenshot_action)
       ''s1'' empty_world)) = 1
   \<and> captures (snd (executeStep capture_fails
       (stored_step ''d'' ''s1'' 4 ''Take a screenshot'' screenshot_action)
       ''s1'' empty_world)) = 2
   \<and> get_prop (JObj [(''stepId'', JStr ''d''), (''status'', JStr ''passed''), (''error'', JNull),
         (''actualResult'', JStr ''Action completed successfully''),
         (''executionTime'', JNum 6)]) ''status'' = JStr ''passed''"
proof -
  let ?verify = "stored_step ''c'' ''s1'' 3 ''Check the title'' (verify_title ''Example'')"
  let ?shot = "stored_step ''d'' ''s1'' 4 ''Take a screenshot'' screenshot_action"
  have c0: "captures empty_world = 0" by (simp add: captures_def empty_world_def)
  have v: "\<not> explicit_screenshot ?verify" by (simp add: run_defs)
  have x: "explicit_screenshot ?shot" by (simp add: run_defs)
  have ok: "\<forall>h path. \<not> throws (example_page h (Screenshot path))"
    by (simp add: example_page_def)
  have bad: "\<forall>h path. throws (capture_fails h (Screenshot path))"
    by (simp add: capture_fails_def)
  have succ: "action_succeeds capture_fails ?shot ''s1'' (snd (Date_now capture_fails empty_world))"
    by (simp add: run_defs)
  have r: "fst (executeStep capture_fails ?shot ''s1'' empty_world)
      = Ok (JObj [(''stepId'', JStr ''d''), (''status'', JStr ''passed''), (''error'', JNull),
         (''actualResult'', JStr ''Action completed successfully''),
         (''executionTime'', JNum 6)])"
    by (simp add: run_defs)
  from step_captures [where env = example_page and step = ?verify and sessionId = "''s1''"
         and w = empty_world, OF prod.collapse [symmetric]] v c0
  have 1: "captures (snd (executeStep example_page ?verify ''s1'' empty_world)) = 1" by simp
  from step_captures [where env = example_page and step = ?shot and sessionId = "''s1''"
         and w = empty_world, OF prod.collapse [symmetric]] ok c0
  have 2: "captures (snd (executeStep example_page ?shot ''s1'' empty_world)) = 1" by simp
  from step_captures [where env = capture_fails and step = ?shot and sessionId = "''s1''"
         and w = empty_world, OF prod.collapse [symmetric]] x bad succ c0 r
  have 3: "captures (snd (executeStep capture_fails ?shot ''s1'' empty_world)) = 2
     \<and> get_prop (JObj [(''stepId'', JStr ''d''), (''status'', JStr ''passed''), (''error'', JNull),
         (''actualResult'', JStr ''Action completed successfully''),
         (''executionTime'', JNum 6)]) ''status'' = JStr ''passed''" by simp
  from 1 2 3 show ?thesis by blast
qed

text \<open>
  C9 as stated fails for an explicit screenshot action: the capture made by the action
  succeeds, and no capture is attempted after the action.
\<close>

theorem explicit_screenshot_counterexample:
  "explicit_screenshot (stored_step ''d'' ''s1'' 4 ''Take a screenshot'' screenshot_action)
   \<and> calls (snd (executeStep example_page
        (stored_step ''d'' ''s1'' 4 ''Take a screenshot'' screenshot_action) ''s1'' empty_world))
     = [DateNow, Db (UpdateStepStatus ''running'' ''d''), DateIso,
        Screenshot ''screenshots/s1_d_step_2024-01-01T00-00-00-000Z.png'', DateNow,
        Db (UpdateStepResult ''passed'' (JStr ''Action completed successfully'') JNull (JNum 4)
              (JStr ''/screenshots/s1_d_step_2024-01-01T00-00-00-000Z.png'') ''d'')]
   \<and> captures (snd (executeStep example_page
        (stored_step ''d'' ''s1'' 4 ''Take a screenshot'' screenshot_action) ''s1'' empty_world))
     = 1"
  by (simp add: run_defs)


lemma three_steps_run:
  \<open>router_post_execute example_page ''s1'' three_steps =
(\<lparr>http_status = 200,
     body =
       JObj
        [(''sessionId'', JStr ''s1''), (''status'', JStr ''failed''),
         (''results'',
          JArr
           [JObj
             [(''stepId'', JStr ''a''), (''status'', JStr ''failed''),
              (''error'', JStr ''net::ERR_NAME_NOT_RESOLVED''), (''actualResult'', JNull),
              (''executionTime'', JNum 5)],
            JObj
             [(''stepId'', JStr ''b''), (''status'', JStr ''passed''), (''error'', JNull),
              (''actualResult'', JStr ''Action completed successfully''),
              (''executionTime'', JNum 7)],
            JObj
             [(''stepId'', JStr ''c''), (''status'', JStr ''passed''), (''error'', JNull),
              (''actualResult'',
               JStr
                [CHR ''T'', CHR ''i'', CHR ''t'', CHR ''l'', CHR ''e'', CHR '' '', CHR ''v'',
                 CHR ''e'', CHR ''r'', CHR ''i'', CHR ''f'', CHR ''i'', CHR ''c'', CHR ''a'',
                 CHR ''t'', CHR ''i'', CHR ''o'', CHR ''n'', CHR '' '', CHR ''p'', CHR ''a'',
                 CHR ''s'', CHR ''s'', CHR ''e'', CHR ''d'', CHR '':'', CHR '' '', CHR 0x22,
                 CHR ''E'', CHR ''x'', CHR ''a'', CHR ''m'', CHR ''p'', CHR ''l'', CHR ''e'',
                 CHR '' '', CHR ''D'', CHR ''o'', CHR ''m'', CHR ''a'', CHR ''i'', CHR ''n'',
                 CHR 0x22, CHR '' '', CHR ''c'', CHR ''o'', CHR ''n'', CHR ''t'', CHR ''a'',
                 CHR ''i'', CHR ''n'', CHR ''s'', CHR '' '', CHR 0x22, CHR ''E'', CHR ''x'',
                 CHR ''a'', CHR ''m'', CHR ''p'', CHR ''l'', CHR ''e'', CHR 0x22]),
              (''executionTime'', JNum 5)]]),
         (''summary'', JObj [(''total'', JNum 3), (''passed'', JNum 2), (''failed'', JNum 1)])]\<rparr>,
  \<lparr>calls =
     [Db (SelectSession ''s1''), Db (SelectSteps ''s1''),
      Db (UpdateSessionStatus ''running'' ''s1''), BrowserLaunch, NewContext, NewPage, DateNow,
      Db (UpdateStepStatus ''running'' ''a''), Goto (JStr ''https://bad.invalid'') (JNum 30000),
      DateIso, Screenshot ''screenshots/s1_a_error_2024-01-01T00-00-00-000Z.png'', DateNow,
      Db (UpdateStepResult ''failed'' JNull (JStr ''net::ERR_NAME_NOT_RESOLVED'') (JNum 5)
           (JStr ''/screenshots/s1_a_error_2024-01-01T00-00-00-000Z.png'') ''a''),
      DateNow, Db (UpdateStepStatus ''running'' ''b''), probe ''.a'', probe ''#b'',
      Click (JStr ''#b'') (JNum 30000), DateIso,
      Screenshot ''screenshots/s1_b_step_2024-01-01T00-00-00-000Z.png'', DateNow,
      Db (UpdateStepResult ''passed'' (JStr ''Action completed successfully'') JNull (JNum 7)
           (JStr ''/screenshots/s1_b_step_2024-01-01T00-00-00-000Z.png'') ''b''),
      DateNow, Db (UpdateStepStatus ''running'' ''c''), Title, DateIso,
      Screenshot ''screenshots/s1_c_step_2024-01-01T00-00-00-000Z.png'', DateNow,
      Db (UpdateStepResult ''passed''
           (JStr
             [CHR ''T'', CHR ''i'', CHR ''t'', CHR ''l'', CHR ''e'', CHR '' '', CHR ''v'',
              CHR ''e'', CHR ''r'', CHR ''i'', CHR ''f'', CHR ''i'', CHR ''c'', CHR ''a'',
              CHR ''t'', CHR ''i'', CHR ''o'', CHR ''n'', CHR '' '', CHR ''p'', CHR ''a'',
              CHR ''s'', CHR ''s'', CHR ''e'', CHR ''d'', CHR '':'', CHR '' '', CHR 0x22, CHR ''E'',
              CHR ''x'', CHR ''a'', CHR ''m'', CHR ''p'', CHR ''l'', CHR ''e'', CHR '' '',
              CHR ''D'', CHR ''o'', CHR ''m'', CHR ''a'', CHR ''i'', CHR ''n'', CHR 0x22, CHR '' '',
              CHR ''c'', CHR ''o'', CHR ''n'', CHR ''t'', CHR ''a'', CHR ''i'', CHR ''n'',
              CHR ''s'', CHR '' '', CHR 0x22, CHR ''E'', CHR ''x'', CHR ''a'', CHR ''m'', CHR ''p'',
              CHR ''l'', CHR ''e'', CHR 0x22])
           JNull (JNum 5) (JStr ''/screenshots/s1_c_step_2024-01-01T00-00-00-000Z.png'') ''c''),
      PageClose, ContextClose, BrowserClose, Db (UpdateSessionResult ''failed'' 2 1 ''s1'')],
     store =
       \<lparr>test_sessions =
          [\<lparr>sess_id = ''s1'', sess_name = ''login'', sess_description = JNull,
              sess_status = ''failed'', total_steps = 3, passed_steps = 2, failed_steps = 1\<rparr>],
          test_steps =
            [\<lparr>step_id = ''a'', session_id = ''s1'', step_number = 1,
                original_command = ''Go to https://bad.invalid'',
                translated_action =
                  JsonText
                   (JObj
                     [(''type'', JStr ''navigate''), (''target'', JStr ''https://bad.invalid''),
                      (''value'', JStr ''https://bad.invalid''),
                      (''description'', JStr ''Navigate to https://bad.invalid''),
                      (''timeout'', JNum 30000)]),
                action_type = JStr ''navigate'', target_element = JStr ''https://bad.invalid'',
                actual_result = JNull, step_status = ''failed'',
                screenshot_path = JStr ''/screenshots/s1_a_error_2024-01-01T00-00-00-000Z.png'',
                error_message = JStr ''net::ERR_NAME_NOT_RESOLVED'', execution_time = JNum 5\<rparr>,
             \<lparr>step_id = ''b'', session_id = ''s1'', step_number = 2,
                original_command = ''Click Foo'',
                translated_action =
                  JsonText
                   (JObj
                     [(''type'', JStr ''click''), (''target'', JStr ''.a, #b, text=Foo''),
                      (''value'', JStr []), (''description'', JStr ''Execute click action''),
                      (''waitFor'', JNull), (''timeout'', JNum 30000)]),
                action_type = JStr ''click'', target_element = JStr ''.a, #b, text=Foo'',
                actual_result = JStr ''Action completed successfully'', step_status = ''passed'',
                screenshot_path = JStr ''/screenshots/s1_b_step_2024-01-01T00-00-00-000Z.png'',
                error_message = JNull, execution_time = JNum 7\<rparr>,
             \<lparr>step_id = ''c'', session_id = ''s1'', step_number = 3,
                original_command = ''Check the title'',
                translated_action =
                  JsonText
                   (JObj
                     [(''type'', JStr ''verify''), (''target'', JStr ''title''),
                      (''value'', JStr ''Example''),
                      (''description'', JStr ''Execute verify action''), (''waitFor'', JNull),
                      (''timeout'', JNum 30000)]),
                action_type = JStr ''verify'', target_element = JStr ''title'',
                actual_result =
                  JStr
                   [CHR ''T'', CHR ''i'', CHR ''t'', CHR ''l'', CHR ''e'', CHR '' '', CHR ''v'',
                    CHR ''e'', CHR ''r'', CHR ''i'', CHR ''f'', CHR ''i'', CHR ''c'', CHR ''a'',
                    CHR ''t'', CHR ''i'', CHR ''o'', CHR ''n'', CHR '' '', CHR ''p'', CHR ''a'',
                    CHR ''s'', CHR ''s'', CHR ''e'', CHR ''d'', CHR '':'', CHR '' '', CHR 0x22,
                    CHR ''E'', CHR ''x'', CHR ''a'', CHR ''m'', CHR ''p'', CHR ''l'', CHR ''e'',
                    CHR '' '', CHR ''D'', CHR ''o'', CHR ''m'', CHR ''a'', CHR ''i'', CHR ''n'',
                    CHR 0x22, CHR '' '', CHR ''c'', CHR ''o'', CHR ''n'', CHR ''t'', CHR ''a'',
                    CHR ''i'', CHR ''n'', CHR ''s'', CHR '' '', CHR 0x22, CHR ''E'', CHR ''x'',
                    CHR ''a'', CHR ''m'', CHR ''p'', CHR ''l'', CHR ''e'', CHR 0x22],
                step_status = ''passed'',
                screenshot_path = JStr ''/screenshots/s1_c_step_2024-01-01T00-00-00-000Z.png'',
                error_message = JNull, execution_time = JNum 5\<rparr>]\<rparr>\<rparr>)\<close>
  by (simp add: run_defs three_steps_def)

text \<open>
  C1 does not hold of the code. The session below has the steps navigate (to a host that
  cannot be reached), click and verify, all pending. The navigation is the first step and
  fails, yet the click and the verification are executed: the result of a step has no
  property \<^verbatim>\<open>critical\<close>, so the test that should leave the loop is never true. The two
  later steps end \<^verbatim>\<open>passed\<close>, none stays pending; the session ends \<^verbatim>\<open>failed\<close>.
\<close>

theorem critical_failure_runs_remaining_steps:
  "map step_status (test_steps (store three_steps)) = [''pending'', ''pending'', ''pending'']
   \<and> map step_status
        (test_steps (store (snd (router_post_execute example_page ''s1'' three_steps))))
     = [''failed'', ''passed'', ''passed'']
   \<and> http_status (fst (router_post_execute example_page ''s1'' three_steps)) = 200
   \<and> get_prop (body (fst (router_post_execute example_page ''s1'' three_steps))) ''status''
     = JStr ''failed''
   \<and> get_prop (body (fst (router_post_execute example_page ''s1'' three_steps))) ''summary''
     = JObj [(''total'', JNum 3), (''passed'', JNum 2), (''failed'', JNum 1)]
   \<and> Goto (JStr ''https://bad.invalid'') (JNum 30000)
       \<in> set (calls (snd (router_post_execute example_page ''s1'' three_steps)))
   \<and> Click (JStr ''#b'') (JNum 30000)
       \<in> set (calls (snd (router_post_execute example_page ''s1'' three_steps)))
   \<and> Title \<in> set (calls (snd (router_post_execute example_page ''s1'' three_steps)))"
  unfolding three_steps_run
  by (simp add: three_steps_def stored_step_def)

section \<open>Sessions: creation and execution\<close>

lemma step_update_refl: "step_update {} {} d d"
  unfolding step_update_def by (auto intro: exI [of _ id])

lemma step_update_weaken:
  assumes "step_update T S d d'" and "T \<subseteq> T'" and "S' \<subseteq> S"
  shows "step_update T' S' d d'"
  using assms unfolding step_update_def by (meson subsetD)

lemma step_update_trans:
  assumes "step_update T1 S1 d d'" and "step_update T2 S2 d' d''" and "S1 \<inter> T2 \<subseteq> S2"
  shows "step_update (T1 \<union> T2) (S1 \<union> S2) d d''"
proof -
  from assms(1) obtain g1 where g1: "test_steps d' = map g1 (test_steps d)"
    and p1: "\<forall>r. step_id (g1 r) = step_id r \<and> session_id (g1 r) = session_id r
                 \<and> (step_id r \<notin> T1 \<longrightarrow> g1 r = r)
                 \<and> (step_id r \<in> S1 \<longrightarrow>
                      step_status (g1 r) = ''passed'' \<or> step_status (g1 r) = ''failed'')"
    and s1: "test_sessions d' = test_sessions d"
    unfolding step_update_def by blast
  from assms(2) obtain g2 where g2: "test_steps d'' = map g2 (test_steps d')"
    and p2: "\<forall>r. step_id (g2 r) = step_id r \<and> session_id (g2 r) = session_id r
                 \<and> (step_id r \<notin> T2 \<longrightarrow> g2 r = r)
                 \<and> (step_id r \<in> S2 \<longrightarrow>
                      step_status (g2 r) = ''passed'' \<or> step_status (g2 r) = ''failed'')"
    and s2: "test_sessions d'' = test_sessions d'"
    unfolding step_update_def by blast
  have "test_steps d'' = map (g2 \<circ> g1) (test_steps d)" using g1 g2 by simp
  moreover have "\<forall>r. step_id ((g2 \<circ> g1) r) = step_id r \<and> session_id ((g2 \<circ> g1) r) = session_id r
                 \<and> (step_id r \<notin> T1 \<union> T2 \<longrightarrow> (g2 \<circ> g1) r = r)
                 \<and> (step_id r \<in> S1 \<union> S2 \<longrightarrow>
                      step_status ((g2 \<circ> g1) r) = ''passed'' \<or> step_status ((g2 \<circ> g1) r) = ''failed'')"
  proof (intro allI conjI impI)
    fix r
    show "step_id ((g2 \<circ> g1) r) = step_id r" using p1 p2 by simp
    show "session_id ((g2 \<circ> g1) r) = session_id r" using p1 p2 by simp
    show "(g2 \<circ> g1) r = r" if "step_id r \<notin> T1 \<union> T2" using that p1 p2 by simp
    show "step_status ((g2 \<circ> g1) r) = ''passed'' \<or> step_status ((g2 \<circ> g1) r) = ''failed''"
      if "step_id r \<in> S1 \<union> S2"
    proof (cases "step_id r \<in> S2")
      case True
      then have "step_id (g1 r) \<in> S2" using p1 by simp
      then show ?thesis using p2 by simp
    next
      case False
      then have s: "step_id r \<in> S1" using that by simp
      then have "step_id r \<notin> T2" using False assms(3) by blast
      then have "step_id (g1 r) \<notin> T2" using p1 by simp
      then have "g2 (g1 r) = g1 r" using p2 by blast
      then show ?thesis using p1 s by simp
    qed
  qed
  ultimately show ?thesis
    unfolding step_update_def using s1 s2 by (intro conjI exI [of _ "g2 \<circ> g1"]) simp_all
qed

lemma step_update_mark:
  "db_apply (UpdateStepStatus st i) d = Inr d' \<Longrightarrow> step_update {i} {} d d'"
  unfolding step_update_def
  by (auto intro!: exI [of _ "\<lambda>r. if step_id r = i then r\<lparr>step_status := st\<rparr> else r"])

lemma step_update_result:
  assumes "db_apply (UpdateStepResult st a e t p i) d = Inr d'"
    and "st = ''passed'' \<or> st = ''failed''"
  shows "step_update {i} {i} d d'"
  using assms unfolding step_update_def
  by (auto intro!: exI [of _ "\<lambda>r. if step_id r = i
                 then r\<lparr>step_status := st, actual_result := a, error_message := e,
                        execution_time := t, screenshot_path := p\<rparr>
                 else r"])


lemma step_try_update:
  assumes "step_try env step sessionId w = (r, w')"
  shows "step_update {step_id step} {} (store w) (store w')"
proof (cases "translated_action step")
  case NotJson
  then have "w' = w" using assms by (simp add: step_try_def)
  then show ?thesis using step_update_refl step_update_weaken by blast
next
  case (JsonText action)
  let ?mark = "UpdateStepStatus ''running'' (step_id step)"
  obtain rd w1 where d: "db_run env ?mark w = (rd, w1)" by fastforce
  have u1: "step_update {step_id step} {} (store w) (store w1)"
    using db_run_cases [OF d] step_update_mark [of "''running''" "step_id step" "store w"]
      step_update_weaken [OF step_update_refl, of "{step_id step}" "{}" "store w"]
    by auto
  show ?thesis
  proof (cases rd)
    case (Threw e)
    then have "w' = w1" using assms JsonText d by (simp add: step_try_def)
    then show ?thesis using u1 by simp
  next
    case (Ok u)
    obtain ra w2 where a: "run_action env action sessionId (step_id step) w1 = (ra, w2)"
      by fastforce
    have s2: "store w2 = store w1"
      using run_action_store [of env action sessionId "step_id step" w1] a by simp
    obtain p w3 where s: "takeScreenshot env sessionId (step_id step) ''step'' w2 = (Ok p, w3)"
        and s3: "store w3 = store w2"
      using takeScreenshot_ok [of env sessionId "step_id step" "''step''" w2] by blast
    have "w' = w2 \<or> w' = w3"
      using assms JsonText d Ok a s
      by (cases ra) (auto simp: step_try_def split: if_splits)
    then show ?thesis using u1 s2 s3 by auto
  qed
qed

lemma step_attempt_update:
  assumes "step_attempt env step sessionId w = ((status, err, actual, path), w')"
  shows "step_update {step_id step} {} (store w) (store w')"
    and "status = ''passed'' \<or> status = ''failed''"
proof -
  obtain r w1 where t: "step_try env step sessionId w = (r, w1)" by fastforce
  obtain p w2 where s: "takeScreenshot env sessionId (step_id step) ''error'' w1 = (Ok p, w2)"
      and s2: "store w2 = store w1"
    using takeScreenshot_ok [of env sessionId "step_id step" "''error''" w1] by blast
  have "(w' = w1 \<or> w' = w2) \<and> (status = ''passed'' \<or> status = ''failed'')"
    using assms t s by (cases r) (auto simp: step_attempt_def)
  then show "step_update {step_id step} {} (store w) (store w')"
    and "status = ''passed'' \<or> status = ''failed''"
    using step_try_update [OF t] s2 by auto
qed

lemma executeStep_Ok:
  assumes "executeStep env step sessionId w = (Ok result, w')"
  shows "step_update {step_id step} {step_id step} (store w) (store w')"
    and "get_prop result ''status'' = JStr ''passed'' \<or> get_prop result ''status'' = JStr ''failed''"
    and "get_prop result ''critical'' = JUndefined"
proof -
  obtain t0 w0 where n0: "Date_now env w = (t0, w0)" by fastforce
  obtain status err actual path w2
    where a: "step_attempt env step sessionId w0 = ((status, err, actual, path), w2)"
    by (metis prod_cases4 surj_pair)
  obtain t1 w3 where n1: "Date_now env w2 = (t1, w3)" by fastforce
  let ?op = "UpdateStepResult status actual err (JNum (t1 - t0)) path (step_id step)"
  obtain rd w4 where d: "db_run env ?op w3 = (rd, w4)" by fastforce
  have w0: "store w0 = store w" using n0 Date_now_world [of env w] by simp
  have w3: "store w3 = store w2" using n1 Date_now_world [of env w2] by simp
  note st = step_attempt_update [OF a]
  from executeStep_unfold [OF n0 a n1 d] assms
  have rd: "rd = Ok ()" and w': "w' = w4"
    and res: "result = JObj [(''stepId'', JStr (step_id step)), (''status'', JStr status),
                 (''error'', err), (''actualResult'', actual),
                 (''executionTime'', JNum (t1 - t0))]"
    by (auto split: res.splits)
  from db_run_cases [OF d] rd obtain db where db: "db_apply ?op (store w3) = Inr db"
    and w4: "store w4 = db" by auto
  have "step_update {step_id step} {step_id step} (store w3) (store w4)"
    using step_update_result [OF db st(2)] w4 by simp
  with step_update_trans [OF st(1) _, of "{step_id step}" "{step_id step}" "store w4"]
  show "step_update {step_id step} {step_id step} (store w) (store w')"
    using w0 w3 w' by simp
  show "get_prop result ''status'' = JStr ''passed'' \<or> get_prop result ''status'' = JStr ''failed''"
    using res st(2) by auto
  show "get_prop result ''critical'' = JUndefined"
    using res by simp
qed

lemma run_steps_Ok:
  assumes "run_steps env sessionId steps results w = (Ok results', w')"
  shows "\<exists>extra. results' = results @ extra \<and> length extra = length steps
           \<and> (\<forall>r \<in> set extra. get_prop r ''status'' = JStr ''passed''
                 \<or> get_prop r ''status'' = JStr ''failed'')"
    and "step_update (step_id ` set steps) (step_id ` set steps) (store w) (store w')"
  using assms
proof (induction steps arbitrary: results w)
  case Nil
  {
    case 1
    then show ?case by simp
  next
    case 2
    then show ?case using step_update_refl by simp
  }
next
  case (Cons step steps)
  {
    case 1
    obtain r1 w1 where e: "executeStep env step sessionId w = (r1, w1)" by fastforce
    with 1 obtain result where r1: "r1 = Ok result" by (cases r1) auto
    note f = executeStep_Ok [OF e [unfolded r1]]
    have "run_steps env sessionId steps (results @ [result]) w1 = (Ok results', w')"
      using 1 e r1 f(3) by simp
    from Cons.IH(1) [OF this] obtain extra where
      "results' = (results @ [result]) @ extra" "length extra = length steps"
      "\<forall>r \<in> set extra. get_prop r ''status'' = JStr ''passed''
                 \<or> get_prop r ''status'' = JStr ''failed''" by blast
    then show ?case using f(2)
      by (intro exI [of _ "result # extra"]) auto
  next
    case 2
    obtain r1 w1 where e: "executeStep env step sessionId w = (r1, w1)" by fastforce
    with 2 obtain result where r1: "r1 = Ok result" by (cases r1) auto
    note f = executeStep_Ok [OF e [unfolded r1]]
    have "run_steps env sessionId steps (results @ [result]) w1 = (Ok results', w')"
      using 2 e r1 f(3) by simp
    from Cons.IH(2) [OF this]
    have "step_update (step_id ` set steps) (step_id ` set steps) (store w1) (store w')" .
    from step_update_trans [OF f(1) this]
    show ?case by simp
  }
qed

lemma close_all_store: "store (snd (close_all env cs w)) = store w"
  by (induction cs arbitrary: w) (auto simp: invoke_eq split: resp.splits)

lemma finally_close_Ok:
  assumes "finally_close env cs (r, w) = (Ok x, w')"
  shows "r = Ok x \<and> store w' = store w"
proof -
  obtain rc wc where c: "close_all env cs w = (rc, wc)" by fastforce
  then have "store wc = store w" using close_all_store [of env cs w] by simp
  then show ?thesis using assms c by (cases rc) (auto simp: finally_close_def)
qed

lemma executeTest_Ok:
  assumes "executeTest env sessionId steps w = (Ok results, w')"
  shows "length results = length steps"
    and "\<forall>r \<in> set results. get_prop r ''status'' = JStr ''passed''
                 \<or> get_prop r ''status'' = JStr ''failed''"
    and "step_update (step_id ` set steps) (step_id ` set steps) (store w) (store w')"
proof -
  let ?w1 = "w\<lparr>calls := calls w @ [BrowserLaunch]\<rparr>"
  let ?w2 = "?w1\<lparr>calls := calls ?w1 @ [NewContext]\<rparr>"
  let ?w3 = "?w2\<lparr>calls := calls ?w2 @ [NewPage]\<rparr>"
  obtain rs ws where rs: "run_steps env sessionId steps [] ?w3 = (rs, ws)" by fastforce
  have l: "invoke env BrowserLaunch w = (Ok (), ?w1)"
    using assms by (cases "env (calls w) BrowserLaunch") (auto simp: executeTest_def invoke_eq)
  have c: "invoke env NewContext ?w1 = (Ok (), ?w2)"
    using assms l finally_close_Ok [of env _ "Threw _" _ results w']
    by (cases "env (calls ?w1) NewContext") (auto simp: executeTest_def invoke_eq)
  have p: "invoke env NewPage ?w2 = (Ok (), ?w3)"
    using assms l c finally_close_Ok [of env _ "Threw _" _ results w']
    by (cases "env (calls ?w2) NewPage") (auto simp: executeTest_def invoke_eq)
  have "finally_close env [PageClose, ContextClose, BrowserClose] (rs, ws) = (Ok results, w')"
    using assms l c p rs by (simp add: executeTest_def)
  from finally_close_Ok [OF this] have r: "rs = Ok results" and s: "store w' = store ws" by auto
  from run_steps_Ok [OF rs [unfolded r]]
  show "length results = length steps"
    and "\<forall>r \<in> set results. get_prop r ''status'' = JStr ''passed''
                 \<or> get_prop r ''status'' = JStr ''failed''"
    and "step_update (step_id ` set steps) (step_id ` set steps) (store w) (store w')"
    using s by auto
qed


lemma find_map_keep:
  "(\<And>x. P (f x) = P x) \<Longrightarrow> find P (map f xs) = map_option f (find P xs)"
  by (induction xs) auto

lemma db_get_session_cases:
  assumes "db_get_session env sid w = (r, w')"
  shows "store w' = store w"
    and "r = Ok x \<Longrightarrow> x = find (\<lambda>s. sess_id s = sid) (test_sessions (store w))"
  using assms
  by (auto simp: db_get_session_def perform_def split: resp.splits)

lemma db_all_steps_cases:
  assumes "db_all_steps env sid w = (r, w')"
  shows "store w' = store w"
    and "r = Ok steps \<Longrightarrow> steps = sort_key step_number (session_steps sid w)"
  using assms
  by (auto simp: db_all_steps_def perform_def session_steps_def split: resp.splits)

lemma count_status_total:
  assumes "\<forall>r \<in> set results. get_prop r ''status'' = JStr ''passed''
                 \<or> get_prop r ''status'' = JStr ''failed''"
  shows "count_status ''passed'' results + count_status ''failed'' results = length results"
  using assms unfolding count_status_def
  by (induction results) auto

lemma step_update_session_steps:
  assumes "step_update I I (store w) (store w')"
    and "step_id ` set (session_steps sid w) \<subseteq> I"
  shows "length (session_steps sid w') = length (session_steps sid w)"
    and "\<forall>r \<in> set (session_steps sid w').
           step_status r = ''passed'' \<or> step_status r = ''failed''"
proof -
  from assms(1) obtain g where g: "test_steps (store w') = map g (test_steps (store w))"
    and p: "\<forall>r. step_id (g r) = step_id r \<and> session_id (g r) = session_id r
                 \<and> (step_id r \<notin> I \<longrightarrow> g r = r)
                 \<and> (step_id r \<in> I \<longrightarrow>
                      step_status (g r) = ''passed'' \<or> step_status (g r) = ''failed'')"
    unfolding step_update_def by blast
  have f: "session_steps sid w' = map g (session_steps sid w)"
    unfolding session_steps_def g filter_map using p by (simp add: comp_def)
  show "length (session_steps sid w') = length (session_steps sid w)"
    using f by simp
  show "\<forall>r \<in> set (session_steps sid w').
           step_status r = ''passed'' \<or> step_status r = ''failed''"
    unfolding f using p assms(2) by auto
qed

lemma router_post_execute_200:
  assumes "router_post_execute env sid w = (resp, w')" and "http_status resp = 200"
  shows "\<exists>session results.
      find (\<lambda>s. sess_id s = sid) (test_sessions (store w)) = Some session
    \<and> get_prop (body resp) ''results'' = JArr results
    \<and> length results = length (session_steps sid w)
    \<and> count_status ''passed'' results + count_status ''failed'' results = length results
    \<and> find (\<lambda>s. sess_id s = sid) (test_sessions (store w'))
        = Some (session\<lparr>sess_status :=
                   (if 0 < count_status ''failed'' results then ''failed'' else ''passed''),
                 passed_steps := int (count_status ''passed'' results),
                 failed_steps := int (count_status ''failed'' results)\<rparr>)
    \<and> length (session_steps sid w') = length (session_steps sid w)
    \<and> (\<forall>r \<in> set (session_steps sid w').
          step_status r = ''passed'' \<or> step_status r = ''failed'')"
proof -
  obtain r1 w1 where g: "db_get_session env sid w = (r1, w1)" by fastforce
  note g' = db_get_session_cases [OF g]
  from assms g obtain session where r1: "r1 = Ok (Some session)"
    by (cases r1; cases "case r1 of Ok x \<Rightarrow> x")
       (auto simp: router_post_execute_def execute_failure_def)
  have fs: "find (\<lambda>s. sess_id s = sid) (test_sessions (store w)) = Some session"
    using g'(2) [OF r1] by simp
  have sid: "sess_id session = sid" using fs by (auto simp: find_Some_iff)
  obtain r2 w2 where a: "db_all_steps env sid w1 = (r2, w2)" by fastforce
  note a' = db_all_steps_cases [OF a]
  from assms g r1 a obtain steps where r2: "r2 = Ok steps"
    by (cases r2) (auto simp: router_post_execute_def execute_failure_def)
  have steps: "steps = sort_key step_number (session_steps sid w)"
    using a'(2) [OF r2] g'(1) by (simp add: session_steps_def)
  let ?run = "UpdateSessionStatus ''running'' sid"
  obtain r3 w3 where u: "db_run env ?run w2 = (r3, w3)" by fastforce
  from assms g r1 a r2 u have r3: "r3 = Ok ()"
    by (cases r3) (auto simp: router_post_execute_def execute_failure_def)
  from db_run_cases [OF u] r3
  have w3: "store w3 = (store w2)\<lparr>test_sessions :=
       map (\<lambda>s. if sess_id s = sid then s\<lparr>sess_status := ''running''\<rparr> else s)
         (test_sessions (store w2))\<rparr>"
    by auto
  obtain r4 w4 where e: "executeTest env sid steps w3 = (r4, w4)" by fastforce
  from assms g r1 a r2 u r3 e obtain results where r4: "r4 = Ok results"
    by (cases r4) (auto simp: router_post_execute_def execute_failure_def)
  note t = executeTest_Ok [OF e [unfolded r4]]
  let ?passed = "int (count_status ''passed'' results)"
  let ?failed = "int (count_status ''failed'' results)"
  let ?final = "if ?failed > 0 then ''failed'' else ''passed''"
  let ?fin = "UpdateSessionResult ?final ?passed ?failed sid"
  obtain r5 w5 where f: "db_run env ?fin w4 = (r5, w5)" by fastforce
  from assms g r1 a r2 u r3 e r4 f have r5: "r5 = Ok ()"
    by (cases r5) (auto simp: router_post_execute_def execute_failure_def Let_def)
  from db_run_cases [OF f] r5
  have w5: "store w5 = (store w4)\<lparr>test_sessions :=
       map (\<lambda>s. if sess_id s = sid
                 then s\<lparr>sess_status := ?final, passed_steps := ?passed, failed_steps := ?failed\<rparr>
                 else s) (test_sessions (store w4))\<rparr>"
    by auto
  have out: "w' = w5" "body resp = JObj
                                     [(''sessionId'', JStr sid),
                                      (''status'', JStr ?final),
                                      (''results'', JArr results),
                                      (''summary'', JObj
                                         [(''total'', JNum (int (length steps))),
                                          (''passed'', JNum ?passed),
                                          (''failed'', JNum ?failed)])]"
    using assms g r1 a r2 u r3 e r4 f r5
    by (auto simp: router_post_execute_def Let_def)
  have s12: "store w2 = store w" using g'(1) a'(1) by simp
  have sess4: "test_sessions (store w4) = test_sessions (store w3)"
    using t(3) by (simp add: step_update_def)
  have steps3: "session_steps sid w3 = session_steps sid w"
    using w3 s12 by (simp add: session_steps_def)
  have upd: "step_update (step_id ` set steps) (step_id ` set steps) (store w3) (store w4)"
    using t(3) .
  have sub: "step_id ` set (session_steps sid w3) \<subseteq> step_id ` set steps"
    using steps steps3 by simp
  note k = step_update_session_steps [OF upd sub]
  have steps5: "session_steps sid w5 = session_steps sid w4"
    using w5 by (simp add: session_steps_def)
  have find5: "find (\<lambda>s. sess_id s = sid) (test_sessions (store w5))
        = Some (session\<lparr>sess_status := ?final, passed_steps := ?passed, failed_steps := ?failed\<rparr>)"
    unfolding w5 sess4 w3 s12
    using fs sid by (simp add: find_map_keep)
  show ?thesis
    using fs out t(1) steps count_status_total [OF t(2)] find5 k steps5 steps3
    by (intro exI [of _ session] exI [of _ results]) simp
qed


lemma translateCommand_world:
  "snd (translateCommand env command url w) = w\<lparr>calls := calls w @ [ChatCompletion command url]\<rparr>"
  by (simp add: translateCommand_def perform_def split: resp.splits res.splits sum.splits)

lemma count_status_append [simp]:
  "count_status s (xs @ ys) = count_status s xs + count_status s ys"
  by (simp add: count_status_def)

lemma create_steps_facts:
  assumes "create_steps env sid url commands i steps w = (steps', w')"
  shows "\<exists>extra new. steps' = steps @ extra \<and> length extra = length commands
     \<and> count_status ''pending'' extra + count_status ''failed'' extra = length commands
     \<and> test_sessions (store w') = test_sessions (store w)
     \<and> test_steps (store w') = test_steps (store w) @ new
     \<and> length new = count_status ''pending'' extra
     \<and> (\<forall>r \<in> set new. session_id r = sid \<and> step_status r = ''pending'')"
  using assms
proof (induction commands arbitrary: i steps w)
  case Nil
  then show ?case by (intro exI [of _ "[]"]) (simp add: count_status_def)
next
  case (Cons command commands)
  obtain stepId w1 where u: "uuidv4 env w = (stepId, w1)" by fastforce
  have s1: "store w1 = store w" using u uuidv4_world [of env w] by simp
  obtain rt w2 where t: "translateCommand env command url w1 = (rt, w2)" by fastforce
  have s2: "store w2 = store w1" using t translateCommand_world [of env command url w1] by simp
  let ?failed = "\<lambda>e. JObj [(''id'', JStr stepId), (''stepNumber'', JNum (i + 1)),
                         (''originalCommand'', JStr command),
                         (''status'', JStr ''failed''), (''error'', JStr e)]"
  show ?case
  proof (cases rt)
    case (Threw e)
    then have "create_steps env sid url commands (i + 1) (steps @ [?failed e]) w2 = (steps', w')"
      using Cons.prems u t by simp
    from Cons.IH [OF this] obtain extra new where
      x: "steps' = (steps @ [?failed e]) @ extra" "length extra = length commands"
         "count_status ''pending'' extra + count_status ''failed'' extra = length commands"
         "test_sessions (store w') = test_sessions (store w2)"
         "test_steps (store w') = test_steps (store w2) @ new"
         "length new = count_status ''pending'' extra"
         "\<forall>r \<in> set new. session_id r = sid \<and> step_status r = ''pending''"
      by blast
    show ?thesis
      using x s1 s2
      by (intro exI [of _ "?failed e # extra"] exI [of _ new]) (simp add: count_status_def)
  next
    case (Ok translatedAction)
    let ?ins = "InsertStep stepId sid (i + 1) command (JSON_stringify translatedAction)
                  (get_prop translatedAction ''type'') (get_prop translatedAction ''target'')"
    obtain rd w3 where d: "db_run env ?ins w2 = (rd, w3)" by fastforce
    show ?thesis
    proof (cases rd)
      case (Threw e)
      then have s3: "store w3 = store w2" using db_run_cases [OF d] by auto
      have "create_steps env sid url commands (i + 1) (steps @ [?failed e]) w3 = (steps', w')"
        using Cons.prems u t Ok d Threw by simp
      from Cons.IH [OF this] obtain extra new where
        x: "steps' = (steps @ [?failed e]) @ extra" "length extra = length commands"
           "count_status ''pending'' extra + count_status ''failed'' extra = length commands"
           "test_sessions (store w') = test_sessions (store w3)"
           "test_steps (store w') = test_steps (store w3) @ new"
           "length new = count_status ''pending'' extra"
           "\<forall>r \<in> set new. session_id r = sid \<and> step_status r = ''pending''"
        by blast
      show ?thesis
        using x s1 s2 s3
        by (intro exI [of _ "?failed e # extra"] exI [of _ new]) (simp add: count_status_def)
    next
      case ok: (Ok u')
      let ?pending = "JObj [(''id'', JStr stepId), (''stepNumber'', JNum (i + 1)),
                            (''originalCommand'', JStr command),
                            (''translatedAction'', translatedAction),
                            (''status'', JStr ''pending'')]"
      from db_run_cases [OF d] ok obtain row where
        s3: "test_sessions (store w3) = test_sessions (store w2)"
            "test_steps (store w3) = test_steps (store w2) @ [row]"
            "session_id row = sid" "step_status row = ''pending''"
        by (auto split: if_splits)
      have "create_steps env sid url commands (i + 1) (steps @ [?pending]) w3 = (steps', w')"
        using Cons.prems u t Ok d ok by simp
      from Cons.IH [OF this] obtain extra new where
        x: "steps' = (steps @ [?pending]) @ extra" "length extra = length commands"
           "count_status ''pending'' extra + count_status ''failed'' extra = length commands"
           "test_sessions (store w') = test_sessions (store w3)"
           "test_steps (store w') = test_steps (store w3) @ new"
           "length new = count_status ''pending'' extra"
           "\<forall>r \<in> set new. session_id r = sid \<and> step_status r = ''pending''"
        by blast
      show ?thesis
        using x s1 s2 s3
        by (intro exI [of _ "?pending # extra"] exI [of _ "row # new"])
           (simp add: count_status_def)
    qed
  qed
qed

lemma find_append_new:
  assumes "\<forall>x \<in> set xs. \<not> P x" and "P y"
  shows "find P (xs @ [y]) = Some y"
  using assms by (induction xs) auto

lemma router_post_create_200:
  assumes "router_post_create env (Inr req) w = (resp, w')" and "http_status resp = 200"
  shows "\<exists>sid steps new.
      get_prop (body resp) ''sessionId'' = JStr sid
    \<and> get_prop (body resp) ''steps'' = JArr steps
    \<and> get_prop (body resp) ''status'' = JStr ''created''
    \<and> length steps = length (req_commands req)
    \<and> count_status ''pending'' steps + count_status ''failed'' steps = length (req_commands req)
    \<and> find (\<lambda>s. sess_id s = sid) (test_sessions (store w'))
        = Some \<lparr>sess_id = sid, sess_name = req_name req, sess_description = req_description req,
                sess_status = ''pending'', total_steps = int (length (req_commands req)),
                passed_steps = 0, failed_steps = 0\<rparr>
    \<and> session_steps sid w' = session_steps sid w @ new
    \<and> length new = count_status ''pending'' steps
    \<and> (\<forall>r \<in> set new. step_status r = ''pending'')"
proof -
  obtain sid w1 where u: "uuidv4 env w = (sid, w1)" by fastforce
  have s1: "store w1 = store w" using u uuidv4_world [of env w] by simp
  let ?ins = "InsertSession sid (req_name req) (req_description req)
                (int (length (req_commands req)))"
  obtain rd w2 where d: "db_run env ?ins w1 = (rd, w2)" by fastforce
  from assms u d have rd: "rd = Ok ()"
    by (cases rd) (auto simp: router_post_create_def)
  let ?row = "\<lparr>sess_id = sid, sess_name = req_name req, sess_description = req_description req,
                sess_status = ''pending'', total_steps = int (length (req_commands req)),
                passed_steps = 0, failed_steps = 0\<rparr>"
  from db_run_cases [OF d] rd
  have s2: "sid \<notin> set (map sess_id (test_sessions (store w1)))"
           "test_sessions (store w2) = test_sessions (store w1) @ [?row]"
           "test_steps (store w2) = test_steps (store w1)"
    by (auto split: if_splits)
  obtain steps w3 where c: "create_steps env sid (req_targetUrl req) (req_commands req) 0 [] w2
      = (steps, w3)" by fastforce
  from create_steps_facts [OF c] obtain new where
    x: "length steps = length (req_commands req)"
       "count_status ''pending'' steps + count_status ''failed'' steps = length (req_commands req)"
       "test_sessions (store w3) = test_sessions (store w2)"
       "test_steps (store w3) = test_steps (store w2) @ new"
       "length new = count_status ''pending'' steps"
       "\<forall>r \<in> set new. session_id r = sid \<and> step_status r = ''pending''"
    by auto
  have out: "w' = w3" "body resp = JObj [(''sessionId'', JStr sid),
                                        (''name'', JStr (req_name req)),
                                        (''description'', req_description req),
                                        (''targetUrl'', JStr (req_targetUrl req)),
                                        (''steps'', JArr steps),
                                        (''status'', JStr ''created'')]"
    using assms u d rd c by (auto simp: router_post_create_def)
  have f: "find (\<lambda>s. sess_id s = sid) (test_sessions (store w3)) = Some ?row"
    unfolding x(3) s2(2) using s2(1) by (intro find_append_new) auto
  have st: "session_steps sid w3 = session_steps sid w @ new"
    using x(4,6) s2(3) s1 by (simp add: session_steps_def)
  show ?thesis
    using out x f st
    by (intro exI [of _ sid] exI [of _ steps] exI [of _ new]) simp
qed









text \<open>
  C3, as the code has it. A command whose translation (or whose insertion) fails is
  reported in the answer of the creation but no step is stored for it, while
  \<^verbatim>\<open>total_steps\<close> counts every command. After the session has been created and executed,
  the passed and failed counts of the session and the number of its steps still pending
  add up to the number of commands that were translated and stored, that is
  \<^verbatim>\<open>total_steps\<close> less the number of commands reported as failed at creation.
\<close>

theorem session_counts:
  assumes "router_post_create env (Inr req) w = (created, w1)"
    and "http_status created = 200"
    and "get_prop (body created) ''sessionId'' = JStr sid"
    and "get_prop (body created) ''steps'' = JArr steps"
    and "session_steps sid w = []"
    and "router_post_execute env sid w1 = (executed, w2)"
    and "http_status executed = 200"
  shows "\<exists>session.
      find (\<lambda>s. sess_id s = sid) (test_sessions (store w2)) = Some session
    \<and> total_steps session = int (length (req_commands req))
    \<and> passed_steps session + failed_steps session + int (length (pending_steps sid w2))
        = int (count_status ''pending'' steps)
    \<and> int (count_status ''pending'' steps)
        = total_steps session - int (count_status ''failed'' steps)"
proof -
  from router_post_create_200 [OF assms(1,2)] assms(3,4,5) obtain new where
    c: "count_status ''pending'' steps + count_status ''failed'' steps = length (req_commands req)"
       "find (\<lambda>s. sess_id s = sid) (test_sessions (store w1))
        = Some \<lparr>sess_id = sid, sess_name = req_name req, sess_description = req_description req,
                sess_status = ''pending'', total_steps = int (length (req_commands req)),
                passed_steps = 0, failed_steps = 0\<rparr>"
       "session_steps sid w1 = new"
       "length new = count_status ''pending'' steps"
    by auto
  from router_post_execute_200 [OF assms(6,7)] c(2) obtain session results where
    e: "length results = length (session_steps sid w1)"
       "count_status ''passed'' results + count_status ''failed'' results = length results"
       "find (\<lambda>s. sess_id s = sid) (test_sessions (store w2)) = Some session"
       "total_steps session = int (length (req_commands req))"
       "passed_steps session = int (count_status ''passed'' results)"
       "failed_steps session = int (count_status ''failed'' results)"
       "\<forall>r \<in> set (session_steps sid w2).
          step_status r = ''passed'' \<or> step_status r = ''failed''"
    by auto
  have "pending_steps sid w2 = []"
    using e(7) by (auto simp: pending_steps_def filter_empty_conv)
  then show ?thesis
    using c e by (intro exI [of _ session]) simp
qed

section \<open>Sessions run on the sample page\<close>

lemmas route_defs =
  router_post_execute_def db_get_session_def db_all_steps_def db_run_def perform_def invoke_def
  executeTest_def finally_close_def executeStep_def Date_now_def toISOString_def uuidv4_def
  step_attempt_def step_try_def run_action_def no_result_def
  executeNavigate_def executeVerify_def takeScreenshot_def
  JSON_stringify_def js_or_def count_status_def
  example_page_def empty_world_def stored_step_def verify_title_def
  router_post_create_def translateCommand_def translate_catch_def getFallbackAction_def
  toLowerCase_def to_lower_char_def url_at_def is_quote_def is_space_def
  two_commands_def finished_session_def Let_def

lemma two_commands_created:
  "router_post_create example_page (Inr two_commands) empty_world =
(\<lparr>http_status = 200,
     body =
       JObj
        [(''sessionId'', JStr ''u''), (''name'', JStr ''smoke''), (''description'', JUndefined),
         (''targetUrl'', JStr ''https://example.com''),
         (''steps'',
          JArr
           [JObj
             [(''id'', JStr ''uuu''), (''stepNumber'', JNum 1),
              (''originalCommand'', JStr ''Go to https://example.com''),
              (''translatedAction'',
               JObj
                [(''type'', JStr ''navigate''), (''target'', JStr ''https://example.com''),
                 (''value'', JStr ''https://example.com''),
                 (''description'', JStr ''Navigate to https://example.com''),
                 (''timeout'', JNum 30000)]),
              (''status'', JStr ''pending'')],
            JObj
             [(''id'', JStr ''uuuuuu''), (''stepNumber'', JNum 2),
              (''originalCommand'', JStr ''do something''), (''status'', JStr ''failed''),
              (''error'', JStr ''Failed to translate command: API Error'')]]),
         (''status'', JStr ''created'')]\<rparr>,
  \<lparr>calls =
     [Uuid, Db (InsertSession ''u'' ''smoke'' JUndefined 2), Uuid,
      ChatCompletion ''Go to https://example.com'' ''https://example.com'',
      Db (InsertStep ''uuu'' ''u'' 1 ''Go to https://example.com''
           (JsonText
             (JObj
               [(''type'', JStr ''navigate''), (''target'', JStr ''https://example.com''),
                (''value'', JStr ''https://example.com''),
                (''description'', JStr ''Navigate to https://example.com''),
                (''timeout'', JNum 30000)]))
           (JStr ''navigate'') (JStr ''https://example.com'')),
      Uuid, ChatCompletion ''do something'' ''https://example.com''],
     store =
       \<lparr>test_sessions =
          [\<lparr>sess_id = ''u'', sess_name = ''smoke'', sess_description = JUndefined,
              sess_status = ''pending'', total_steps = 2, passed_steps = 0, failed_steps = 0\<rparr>],
          test_steps =
            [\<lparr>step_id = ''uuu'', session_id = ''u'', step_number = 1,
                original_command = ''Go to https://example.com'',
                translated_action =
                  JsonText
                   (JObj
                     [(''type'', JStr ''navigate''), (''target'', JStr ''https://example.com''),
                      (''value'', JStr ''https://example.com''),
                      (''description'', JStr ''Navigate to https://example.com''),
                      (''timeout'', JNum 30000)]),
                action_type = JStr ''navigate'', target_element = JStr ''https://example.com'',
                actual_result = JNull, step_status = ''pending'', screenshot_path = JNull,
                error_message = JNull, execution_time = JNull\<rparr>]\<rparr>\<rparr>)"
  by (simp add: route_defs)

lemma two_commands_executed:
  "router_post_execute example_page ''u''
     (snd (router_post_create example_page (Inr two_commands) empty_world)) =
(\<lparr>http_status = 200,
     body =
       JObj
        [(''sessionId'', JStr ''u''), (''status'', JStr ''passed''),
         (''results'',
          JArr
           [JObj
             [(''stepId'', JStr ''uuu''), (''status'', JStr ''passed''), (''error'', JNull),
              (''actualResult'', JStr ''Action completed successfully''),
              (''executionTime'', JNum 5)]]),
         (''summary'', JObj [(''total'', JNum 1), (''passed'', JNum 1), (''failed'', JNum 0)])]\<rparr>,
  \<lparr>calls =
     [Uuid, Db (InsertSession ''u'' ''smoke'' JUndefined 2), Uuid,
      ChatCompletion ''Go to https://example.com'' ''https://example.com'',
      Db (InsertStep ''uuu'' ''u'' 1 ''Go to https://example.com''
           (JsonText
             (JObj
               [(''type'', JStr ''navigate''), (''target'', JStr ''https://example.com''),
                (''value'', JStr ''https://example.com''),
                (''description'', JStr ''Navigate to https://example.com''),
                (''timeout'', JNum 30000)]))
           (JStr ''navigate'') (JStr ''https://example.com'')),
      Uuid, ChatCompletion ''do something'' ''https://example.com'', Db (SelectSession ''u''),
      Db (SelectSteps ''u''), Db (UpdateSessionStatus ''running'' ''u''), BrowserLaunch, NewContext,
      NewPage, DateNow, Db (UpdateStepStatus ''running'' ''uuu''),
      Goto (JStr ''https://example.com'') (JNum 30000), DateIso,
      Screenshot ''screenshots/u_uuu_step_2024-01-01T00-00-00-000Z.png'', DateNow,
      Db (UpdateStepResult ''passed'' (JStr ''Action completed successfully'') JNull (JNum 5)
           (JStr ''/screenshots/u_uuu_step_2024-01-01T00-00-00-000Z.png'') ''uuu''),
      PageClose, ContextClose, BrowserClose, Db (UpdateSessionResult ''passed'' 1 0 ''u'')],
     store =
       \<lparr>test_sessions =
          [\<lparr>sess_id = ''u'', sess_name = ''smoke'', sess_description = JUndefined,
              sess_status = ''passed'', total_steps = 2, passed_steps = 1, failed_steps = 0\<rparr>],
          test_steps =
            [\<lparr>step_id = ''uuu'', session_id = ''u'', step_number = 1,
                original_command = ''Go to https://example.com'',
                translated_action =
                  JsonText
                   (JObj
                     [(''type'', JStr ''navigate''), (''target'', JStr ''https://example.com''),
                      (''value'', JStr ''https://example.com''),
                      (''description'', JStr ''Navigate to https://example.com''),
                      (''timeout'', JNum 30000)]),
                action_type = JStr ''navigate'', target_element = JStr ''https://example.com'',
                actual_result = JStr ''Action completed successfully'', step_status = ''passed'',
                screenshot_path = JStr ''/screenshots/u_uuu_step_2024-01-01T00-00-00-000Z.png'',
                error_message = JNull, execution_time = JNum 5\<rparr>]\<rparr>\<rparr>)"
  unfolding two_commands_created
  by (simp add: route_defs)




theorem session_counts_witness:
  "\<exists>session.
      find (\<lambda>s. sess_id s = ''u'')
        (test_sessions (store (snd (router_post_execute example_page ''u''
           (snd (router_post_create example_page (Inr two_commands) empty_world))))))
        = Some session
    \<and> total_steps session = 2
    \<and> passed_steps session + failed_steps session
        + int (length (pending_steps ''u'' (snd (router_post_execute example_page ''u''
             (snd (router_post_create example_page (Inr two_commands) empty_world))))))
        = 1"
proof -
  let ?c = "router_post_create example_page (Inr two_commands) empty_world"
  let ?e = "router_post_execute example_page ''u'' (snd ?c)"
  let ?steps = "[JObj
             [(''id'', JStr ''uuu''), (''stepNumber'', JNum 1),
              (''originalCommand'', JStr ''Go to https://example.com''),
              (''translatedAction'',
               JObj
                [(''type'', JStr ''navigate''), (''target'', JStr ''https://example.com''),
                 (''value'', JStr ''https://example.com''),
                 (''description'', JStr ''Navigate to https://example.com''),
                 (''timeout'', JNum 30000)]),
              (''status'', JStr ''pending'')],
            JObj
             [(''id'', JStr ''uuuuuu''), (''stepNumber'', JNum 2),
              (''originalCommand'', JStr ''do something''), (''status'', JStr ''failed''),
              (''error'', JStr ''Failed to translate command: API Error'')]]"
  have 1: "http_status (fst ?c) = 200" "get_prop (body (fst ?c)) ''sessionId'' = JStr ''u''"
    "get_prop (body (fst ?c)) ''steps'' = JArr ?steps"
    unfolding two_commands_created by simp_all
  have 2: "session_steps ''u'' empty_world = []"
    by (simp add: session_steps_def empty_world_def)
  have 3: "http_status (fst ?e) = 200"
    unfolding two_commands_executed by simp
  have 4: "length (req_commands two_commands) = 2" "count_status ''pending'' ?steps = 1"
    by (simp_all add: two_commands_def count_status_def)
  from session_counts [where env = example_page and req = two_commands and w = empty_world
         and created = "fst ?c" and ?w1.0 = "snd ?c" and sid = "''u''" and steps = ?steps
         and executed = "fst ?e" and ?w2.0 = "snd ?e", OF _ 1 2 _ 3]
  obtain session where
    "find (\<lambda>s. sess_id s = ''u'') (test_sessions (store (snd ?e))) = Some session"
    "total_steps session = int (length (req_commands two_commands))"
    "passed_steps session + failed_steps session + int (length (pending_steps ''u'' (snd ?e)))
       = int (count_status ''pending'' ?steps)"
    by auto
  then show ?thesis using 4 by (intro exI [of _ session]) simp
qed

text \<open>
  C3 as stated fails: of the two commands below the second cannot be translated. The
  session is created with \<^verbatim>\<open>total_steps\<close> 2 and one stored step; after the execution one
  step has passed, none has failed and none is pending.
\<close>

theorem session_counts_counterexample:
  "length (req_commands two_commands) = 2
   \<and> test_sessions (store (snd (router_post_execute example_page ''u''
        (snd (router_post_create example_page (Inr two_commands) empty_world)))))
     = [\<lparr>sess_id = ''u'', sess_name = ''smoke'', sess_description = JUndefined,
         sess_status = ''passed'', total_steps = 2, passed_steps = 1, failed_steps = 0\<rparr>]
   \<and> pending_steps ''u'' (snd (router_post_execute example_page ''u''
        (snd (router_post_create example_page (Inr two_commands) empty_world)))) = []
   \<and> passed_steps (hd (test_sessions (store (snd (router_post_execute example_page ''u''
        (snd (router_post_create example_page (Inr two_commands) empty_world)))))))
     + failed_steps (hd (test_sessions (store (snd (router_post_execute example_page ''u''
        (snd (router_post_create example_page (Inr two_commands) empty_world)))))))
     + int (length (pending_steps ''u'' (snd (router_post_execute example_page ''u''
        (snd (router_post_create example_page (Inr two_commands) empty_world))))))
     \<noteq> total_steps (hd (test_sessions (store (snd (router_post_execute example_page ''u''
        (snd (router_post_create example_page (Inr two_commands) empty_world)))))))"
  unfolding two_commands_executed
  by (simp add: two_commands_def pending_steps_def session_steps_def)

end
